theory Spec2Isabelle
  imports Main "HOL-Library.Word"
begin

unbundle bit_operations_syntax

section \<open>Data model\<close>

type_synonym u8 = "8 word"
type_synonym u16 = "16 word"

text \<open>
  Every exception of \<^verbatim>\<open>caparoc.cpp\<close> is a \<^verbatim>\<open>std::invalid_argument\<close>; the constructors
  keep apart the five messages and carry the values that \<^verbatim>\<open>std::format\<close> puts into them.
\<close>

datatype error =
    ModuleCountReadFailed
  | InvalidModuleNumber u8 u16
  | ChannelCountReadFailed u8
  | InvalidChannelNumber u8 u8 u16
  | DialOnlyModule

text \<open>
  What the program does to the outside world, in the order it does it: one event per
  transport call (with its outcome) and one per \<^verbatim>\<open>std::this_thread::sleep_for\<close>
  (in milliseconds).
\<close>

datatype event =
    EvRead u16 "u16 option"
  | EvReadBlock u16 nat bool
  | EvWrite u16 u16 bool
  | EvSleep int

text \<open>
  Modelled from the spec: the class \<^verbatim>\<open>ModbusConnection\<close> is declared in
  \<^verbatim>\<open>caparoc/modbus_connection.hpp\<close>, which is not part of the sources at hand. Section 6
  of the specification gives its contract: a blocking read or write of one or more
  consecutive 16-bit registers that reports success or failure per call. The connection
  is therefore a parameter: an arbitrary state \<open>'c\<close> with three operations on it. A read
  that fails is \<open>None\<close>; a block read fills the caller's array, modelled as a function
  from the index to the register value.
\<close>

record 'c transport =
  read_register :: "'c \<Rightarrow> u16 \<Rightarrow> u16 option \<times> 'c"
  read_registers :: "'c \<Rightarrow> u16 \<Rightarrow> nat \<Rightarrow> (nat \<Rightarrow> u16) option \<times> 'c"
  write_register :: "'c \<Rightarrow> u16 \<Rightarrow> u16 \<Rightarrow> bool \<times> 'c"

record 'c world =
  conn :: 'c
  trace :: "event list"

record GlobalStatus =
  undervoltage :: bool
  overvoltage :: bool
  cumulative_channel_error :: bool
  cumulative_80_warning :: bool
  system_current_too_high :: bool

record ChannelStatus =
  warning_80_percent :: bool
  overload :: bool
  short_circuit :: bool
  hardware_error :: bool
  voltage_error :: bool
  module_current_too_high :: bool
  ch_system_current_too_high :: bool

section \<open>Transport calls and delays\<close>

definition conn_read_register :: "'c transport \<Rightarrow> 'c world \<Rightarrow> u16 \<Rightarrow> u16 option \<times> 'c world" where
  "conn_read_register T w address =
     (case read_register T (conn w) address of
        (r, c') \<Rightarrow> (r, \<lparr>conn = c', trace = trace w @ [EvRead address r]\<rparr>))"

definition conn_read_registers ::
  "'c transport \<Rightarrow> 'c world \<Rightarrow> u16 \<Rightarrow> nat \<Rightarrow> (nat \<Rightarrow> u16) option \<times> 'c world" where
  "conn_read_registers T w address count =
     (case read_registers T (conn w) address count of
        (r, c') \<Rightarrow> (r, \<lparr>conn = c', trace = trace w @ [EvReadBlock address count (r \<noteq> None)]\<rparr>))"

definition conn_write_register :: "'c transport \<Rightarrow> 'c world \<Rightarrow> u16 \<Rightarrow> u16 \<Rightarrow> bool \<times> 'c world" where
  "conn_write_register T w address val =
     (case write_register T (conn w) address val of
        (ok, c') \<Rightarrow> (ok, \<lparr>conn = c', trace = trace w @ [EvWrite address val ok]\<rparr>))"

definition sleep_for :: "int \<Rightarrow> 'c world \<Rightarrow> 'c world" where
  "sleep_for ms w = w\<lparr>trace := trace w @ [EvSleep ms]\<rparr>"

section \<open>Generic register access\<close>

definition read_uint16 :: "'c transport \<Rightarrow> 'c world \<Rightarrow> u16 \<Rightarrow> u16 option \<times> 'c world" where
  "read_uint16 T w address =
     (case conn_read_register T w address of
        (None, w') \<Rightarrow> (None, w')
      | (Some val, w') \<Rightarrow> (Some val, w'))"

definition write_uint16 :: "'c transport \<Rightarrow> 'c world \<Rightarrow> u16 \<Rightarrow> u16 \<Rightarrow> bool \<times> 'c world" where
  "write_uint16 T w address val = conn_write_register T w address val"

section \<open>Topology\<close>

definition get_number_of_connected_modules :: "'c transport \<Rightarrow> 'c world \<Rightarrow> u16 option \<times> 'c world" where
  "get_number_of_connected_modules T w = read_uint16 T w 0x2000"

text \<open>
  The address is computed in \<^verbatim>\<open>int\<close> (the operands are promoted) and then stored in a
  \<^verbatim>\<open>uint16_t\<close>.
\<close>

definition get_number_of_channels_for_module ::
  "'c transport \<Rightarrow> 'c world \<Rightarrow> u8 \<Rightarrow> u16 option \<times> 'c world" where
  "get_number_of_channels_for_module T w module_number =
     (if uint module_number < 1 \<or> uint module_number > 16 then (None, w)
      else read_uint16 T w (word_of_int (0x2001 + (uint module_number - 1))))"

section \<open>Strings of 32 bytes\<close>

text \<open>
  The loop of \<^verbatim>\<open>read_string32\<close>: register \<open>i\<close> appends its high byte, then its low
  byte.
\<close>

function string32_loop :: "(nat \<Rightarrow> u16) \<Rightarrow> int \<Rightarrow> string \<Rightarrow> string" where
  "string32_loop vals i result =
     (if i < 16
      then string32_loop vals (i + 1)
             (result @ [char_of (unat (drop_bit 8 (vals (nat i)) AND 0xFF)),
                        char_of (unat (vals (nat i) AND 0xFF))])
      else result)"
  by pat_completeness auto
termination
  by (relation "measure (\<lambda>(vals, i, result). nat (16 - i))") auto

text \<open>\<^verbatim>\<open>std::string::find\<close> of a character: the first position, \<open>None\<close> for \<^verbatim>\<open>npos\<close>.\<close>

fun find_char :: "string \<Rightarrow> char \<Rightarrow> nat option" where
  "find_char [] c = None"
| "find_char (x # xs) c = (if x = c then Some 0 else map_option Suc (find_char xs c))"

definition read_string32 :: "'c transport \<Rightarrow> 'c world \<Rightarrow> u16 \<Rightarrow> string option \<times> 'c world" where
  "read_string32 T w address =
     (case conn_read_registers T w address 16 of
        (None, w') \<Rightarrow> (None, w')
      | (Some vals, w') \<Rightarrow>
          (let result = string32_loop vals 0 [] in
           case find_char result (CHR 0x00) of
             Some e \<Rightarrow> (Some (take e result), w')
           | None \<Rightarrow> (Some result, w')))"

text \<open>\<^verbatim>\<open>haystack.find(needle) != std::string::npos\<close>.\<close>

fun contains_str :: "string \<Rightarrow> string \<Rightarrow> bool" where
  "contains_str [] needle = (needle = [])"
| "contains_str (x # xs) needle =
     (take (length needle) (x # xs) = needle \<or> contains_str xs needle)"

section \<open>Validation\<close>

definition validate_module_number ::
  "'c transport \<Rightarrow> 'c world \<Rightarrow> u8 \<Rightarrow> (error + unit) \<times> 'c world" where
  "validate_module_number T w module_number =
     (case get_number_of_connected_modules T w of
        (None, w') \<Rightarrow> (Inl ModuleCountReadFailed, w')
      | (Some num_modules, w') \<Rightarrow>
          if uint module_number < 1 \<or> uint module_number > uint num_modules
          then (Inl (InvalidModuleNumber module_number num_modules), w')
          else (Inr (), w'))"

definition validate_channel_number ::
  "'c transport \<Rightarrow> 'c world \<Rightarrow> u8 \<Rightarrow> u8 \<Rightarrow> (error + unit) \<times> 'c world" where
  "validate_channel_number T w module_number channel_number =
     (case get_number_of_channels_for_module T w module_number of
        (None, w') \<Rightarrow> (Inl (ChannelCountReadFailed module_number), w')
      | (Some num_channels, w') \<Rightarrow>
          if uint channel_number < 1 \<or> uint channel_number > uint num_channels
          then (Inl (InvalidChannelNumber channel_number module_number num_channels), w')
          else (Inr (), w'))"

section \<open>Product names\<close>

definition get_product_name_module ::
  "'c transport \<Rightarrow> 'c world \<Rightarrow> u8 \<Rightarrow> (error + string option) \<times> 'c world" where
  "get_product_name_module T w module_number =
     (case validate_module_number T w module_number of
        (Inl e, w1) \<Rightarrow> (Inl e, w1)
      | (Inr _, w1) \<Rightarrow>
          (case read_string32 T w1 (word_of_int (0x1010 + (uint module_number - 1) * 0x10)) of
             (name, w2) \<Rightarrow> (Inr name, w2)))"

section \<open>Addresses of the per-channel register ranges\<close>

text \<open>
  The source writes \<^verbatim>\<open>BASE + (module_number - 1) * 4 + (channel_number - 1)\<close> at every
  use, with the base \<^verbatim>\<open>0xC050\<close> (nominal current), \<^verbatim>\<open>0xC090\<close> (channel lock),
  \<^verbatim>\<open>0x6010\<close> (channel status), \<^verbatim>\<open>0x6050\<close> (load current) or \<^verbatim>\<open>0xC010\<close> (on/off).
  The sum is an \<^verbatim>\<open>int\<close>, stored in a \<^verbatim>\<open>uint16_t\<close>.
\<close>

definition channel_address :: "int \<Rightarrow> u8 \<Rightarrow> u8 \<Rightarrow> u16" where
  "channel_address base module_number channel_number =
     word_of_int (base + (uint module_number - 1) * 4 + (uint channel_number - 1))"

section \<open>The protected write of the nominal current\<close>

definition global_lock_address :: u16 where
  "global_lock_address = 0xC001"

definition channel_lock_address :: "u8 \<Rightarrow> u8 \<Rightarrow> u16" where
  "channel_lock_address module_number channel_number =
     channel_address 0xC090 module_number channel_number"

definition kDelay :: int where
  "kDelay = 50"

definition kRetries :: int where
  "kRetries = 5"

definition dial_only_product :: string where
  "dial_only_product = ''CAPAROC E2 12-24DC/2-10A''"

text \<open>
  The \<^verbatim>\<open>for\<close> loop of \<^verbatim>\<open>set_nominal_current\<close>, from attempt number \<open>attempt\<close> on; the
  result is the final value of \<^verbatim>\<open>verified\<close>.
\<close>

function write_verify_loop ::
  "'c transport \<Rightarrow> 'c world \<Rightarrow> u16 \<Rightarrow> u16 \<Rightarrow> int \<Rightarrow> bool \<times> 'c world" where
  "write_verify_loop T w address nominal_current attempt =
     (if attempt < kRetries then
        (case write_uint16 T w address nominal_current of
           (False, w1) \<Rightarrow>
             write_verify_loop T (sleep_for kDelay w1) address nominal_current (attempt + 1)
         | (True, w1) \<Rightarrow>
             (case read_uint16 T (sleep_for kDelay w1) address of
                (verify, w2) \<Rightarrow>
                  if verify \<noteq> None \<and> the verify = nominal_current then (True, w2)
                  else write_verify_loop T (sleep_for kDelay w2) address nominal_current
                         (attempt + 1)))
      else (False, w))"
  by pat_completeness auto
termination
  by (relation "measure (\<lambda>(T, w, address, nominal_current, attempt). nat (kRetries - attempt))")
     auto

text \<open>
  \<^verbatim>\<open>set_nominal_current\<close> is one function in the source. The model has it in two parts:
  \<open>set_nominal_current_handshake\<close> is the body from the computation of the register
  address to the end (settling, unlocking, the write/verify loop, re-locking), and
  \<open>set_nominal_current\<close> is the function from its first line, which runs the two
  validations and the product-name check and then continues with the handshake. An
  exception is \<open>Inl\<close>, a returned \<^verbatim>\<open>bool\<close> is \<open>Inr\<close>.
\<close>

definition set_nominal_current_handshake ::
  "'c transport \<Rightarrow> 'c world \<Rightarrow> u8 \<Rightarrow> u8 \<Rightarrow> u16 \<Rightarrow> bool \<times> 'c world" where
  "set_nominal_current_handshake T w3 module_number channel_number nominal_current =
     (let address = channel_address 0xC050 module_number channel_number in
      case read_uint16 T w3 0x6006 of
        (max_cycle_opt, w4) \<Rightarrow>
     (let max_bus_cycle_ms = (case max_cycle_opt of Some c \<Rightarrow> c | None \<Rightarrow> 100);
          w5 = sleep_for (uint max_bus_cycle_ms + 50) w4
      in
      case write_uint16 T w5 (channel_lock_address module_number channel_number) 0 of
        (False, w6) \<Rightarrow> (False, w6)
      | (True, w6) \<Rightarrow>
     (case write_uint16 T (sleep_for kDelay w6) global_lock_address 0 of
        (False, w7) \<Rightarrow> (False, w7)
      | (True, w7) \<Rightarrow>
     (case write_verify_loop T (sleep_for kDelay w7) address nominal_current 0 of
        (False, w8) \<Rightarrow>
          (case write_uint16 T w8 global_lock_address 1 of
             (_, w9) \<Rightarrow>
          (case write_uint16 T w9 (channel_lock_address module_number channel_number) 1 of
             (_, w10) \<Rightarrow> (False, w10)))
      | (True, w8) \<Rightarrow>
          (case write_uint16 T w8 global_lock_address 1 of
             (False, w9) \<Rightarrow> (False, w9)
           | (True, w9) \<Rightarrow>
          (case write_uint16 T (sleep_for kDelay w9)
                  (channel_lock_address module_number channel_number) 1 of
             (False, w10) \<Rightarrow> (False, w10)
           | (True, w10) \<Rightarrow> (True, sleep_for 100 w10)))))))"

definition set_nominal_current ::
  "'c transport \<Rightarrow> 'c world \<Rightarrow> u8 \<Rightarrow> u8 \<Rightarrow> u16 \<Rightarrow> (error + bool) \<times> 'c world" where
  "set_nominal_current T w module_number channel_number nominal_current =
     (case validate_module_number T w module_number of
        (Inl e, w1) \<Rightarrow> (Inl e, w1)
      | (Inr _, w1) \<Rightarrow>
     (case validate_channel_number T w1 module_number channel_number of
        (Inl e, w2) \<Rightarrow> (Inl e, w2)
      | (Inr _, w2) \<Rightarrow>
     (case get_product_name_module T w2 module_number of
        (Inl e, w3) \<Rightarrow> (Inl e, w3)
      | (Inr product_name_opt, w3) \<Rightarrow>
          if product_name_opt \<noteq> None \<and> contains_str (the product_name_opt) dial_only_product
          then (Inl DialOnlyModule, w3)
          else (case set_nominal_current_handshake T w3 module_number channel_number
                       nominal_current of
                  (ok, w') \<Rightarrow> (Inr ok, w')))))"

section \<open>The other operations on a module and channel\<close>

definition get_nominal_current ::
  "'c transport \<Rightarrow> 'c world \<Rightarrow> u8 \<Rightarrow> u8 \<Rightarrow> (error + u16 option) \<times> 'c world" where
  "get_nominal_current T w module_number channel_number =
     (case validate_module_number T w module_number of
        (Inl e, w1) \<Rightarrow> (Inl e, w1)
      | (Inr _, w1) \<Rightarrow>
     (case validate_channel_number T w1 module_number channel_number of
        (Inl e, w2) \<Rightarrow> (Inl e, w2)
      | (Inr _, w2) \<Rightarrow>
     (case read_uint16 T w2 (channel_address 0xC050 module_number channel_number) of
        (r, w3) \<Rightarrow> (Inr r, w3))))"

definition get_load_current ::
  "'c transport \<Rightarrow> 'c world \<Rightarrow> u8 \<Rightarrow> u8 \<Rightarrow> (error + u16 option) \<times> 'c world" where
  "get_load_current T w module_number channel_number =
     (case validate_module_number T w module_number of
        (Inl e, w1) \<Rightarrow> (Inl e, w1)
      | (Inr _, w1) \<Rightarrow>
     (case validate_channel_number T w1 module_number channel_number of
        (Inl e, w2) \<Rightarrow> (Inl e, w2)
      | (Inr _, w2) \<Rightarrow>
     (case read_uint16 T w2 (channel_address 0x6050 module_number channel_number) of
        (r, w3) \<Rightarrow> (Inr r, w3))))"

definition control_channel ::
  "'c transport \<Rightarrow> 'c world \<Rightarrow> u8 \<Rightarrow> u8 \<Rightarrow> bool \<Rightarrow> (error + bool) \<times> 'c world" where
  "control_channel T w module_number channel_number on =
     (case validate_module_number T w module_number of
        (Inl e, w1) \<Rightarrow> (Inl e, w1)
      | (Inr _, w1) \<Rightarrow>
     (case validate_channel_number T w1 module_number channel_number of
        (Inl e, w2) \<Rightarrow> (Inl e, w2)
      | (Inr _, w2) \<Rightarrow>
     (case write_uint16 T w2 (channel_address 0xC010 module_number channel_number)
             (if on then 1 else 0) of
        (ok, w3) \<Rightarrow> (Inr ok, w3))))"

section \<open>Status words\<close>

text \<open>The assignments of \<^verbatim>\<open>get_global_status\<close> to the fields of the structure.\<close>

definition decode_global_status :: "u16 \<Rightarrow> GlobalStatus" where
  "decode_global_status val =
     \<lparr>undervoltage = (val AND 0x01 \<noteq> 0),
      overvoltage = (val AND 0x02 \<noteq> 0),
      cumulative_channel_error = (val AND 0x04 \<noteq> 0),
      cumulative_80_warning = (val AND 0x08 \<noteq> 0),
      system_current_too_high = (val AND 0x10 \<noteq> 0)\<rparr>"

definition get_global_status :: "'c transport \<Rightarrow> 'c world \<Rightarrow> GlobalStatus option \<times> 'c world" where
  "get_global_status T w =
     (case read_uint16 T w 0x6000 of
        (None, w') \<Rightarrow> (None, w')
      | (Some val, w') \<Rightarrow> (Some (decode_global_status val), w'))"

text \<open>The assignments of \<^verbatim>\<open>get_channel_status\<close> to the fields of the structure.\<close>

definition decode_channel_status :: "u16 \<Rightarrow> ChannelStatus" where
  "decode_channel_status val =
     \<lparr>warning_80_percent = (val AND 0x01 \<noteq> 0),
      overload = (val AND 0x02 \<noteq> 0),
      short_circuit = (val AND 0x04 \<noteq> 0),
      hardware_error = (val AND 0x08 \<noteq> 0),
      voltage_error = (val AND 0x10 \<noteq> 0),
      module_current_too_high = (val AND 0x20 \<noteq> 0),
      ch_system_current_too_high = (val AND 0x40 \<noteq> 0)\<rparr>"

definition get_channel_status ::
  "'c transport \<Rightarrow> 'c world \<Rightarrow> u8 \<Rightarrow> u8 \<Rightarrow> (error + ChannelStatus option) \<times> 'c world" where
  "get_channel_status T w module_number channel_number =
     (case validate_module_number T w module_number of
        (Inl e, w1) \<Rightarrow> (Inl e, w1)
      | (Inr _, w1) \<Rightarrow>
     (case validate_channel_number T w1 module_number channel_number of
        (Inl e, w2) \<Rightarrow> (Inl e, w2)
      | (Inr _, w2) \<Rightarrow>
     (case read_uint16 T w2 (channel_address 0x6010 module_number channel_number) of
        (None, w3) \<Rightarrow> (Inr None, w3)
      | (Some val, w3) \<Rightarrow> (Inr (Some (decode_channel_status val)), w3))))"

section \<open>A device to run the model on\<close>

text \<open>
  Modelled from the spec: a transport as section 6 of the specification describes it,
  for concrete runs of the operations. The device is a register file together with a
  schedule of faults, one entry per transport call in the order of the calls (calls
  beyond the schedule are \<open>Good\<close>). \<open>Fail\<close> makes the call fail and changes nothing;
  \<open>Stale\<close> lets a write report success without the register taking the value (a read
  then still returns the old content), which is what the read-back of
  \<^verbatim>\<open>set_nominal_current\<close> guards against.
\<close>

datatype fault = Good | Fail | Stale

record device =
  regs :: "u16 \<Rightarrow> u16"
  faults :: "fault list"

definition next_fault :: "device \<Rightarrow> fault \<times> device" where
  "next_fault d = (case faults d of [] \<Rightarrow> (Good, d) | f # fs \<Rightarrow> (f, d\<lparr>faults := fs\<rparr>))"

definition sim_read_register :: "device \<Rightarrow> u16 \<Rightarrow> u16 option \<times> device" where
  "sim_read_register d address =
     (case next_fault d of
        (Fail, d') \<Rightarrow> (None, d')
      | (_, d') \<Rightarrow> (Some (regs d' address), d'))"

definition sim_read_registers :: "device \<Rightarrow> u16 \<Rightarrow> nat \<Rightarrow> (nat \<Rightarrow> u16) option \<times> device" where
  "sim_read_registers d address count =
     (case next_fault d of
        (Fail, d') \<Rightarrow> (None, d')
      | (_, d') \<Rightarrow> (Some (\<lambda>i. regs d' (address + of_nat i)), d'))"

definition sim_write_register :: "device \<Rightarrow> u16 \<Rightarrow> u16 \<Rightarrow> bool \<times> device" where
  "sim_write_register d address val =
     (case next_fault d of
        (Fail, d') \<Rightarrow> (False, d')
      | (Stale, d') \<Rightarrow> (True, d')
      | (Good, d') \<Rightarrow> (True, d'\<lparr>regs := (regs d')(address := val)\<rparr>))"

definition sim :: "device transport" where
  "sim = \<lparr>read_register = sim_read_register,
          read_registers = sim_read_registers,
          write_register = sim_write_register\<rparr>"

text \<open>
  One module with four channels; the global lock and the lock of channel 1 of module 1
  are locked, every other register is 0.
\<close>

definition regs0 :: "u16 \<Rightarrow> u16" where
  "regs0 = (\<lambda>_. 0)(0x2000 := 1, 0x2001 := 4, 0xC001 := 1, 0xC090 := 1)"

definition start :: "fault list \<Rightarrow> device world" where
  "start fs = \<lparr>conn = \<lparr>regs = regs0, faults = fs\<rparr>, trace = []\<rparr>"

text \<open>
  A register file with the bytes of \<^verbatim>\<open>ABC\<close> at \<open>0x1000\<close> and null bytes everywhere
  else.
\<close>

definition abc_regs :: "u16 \<Rightarrow> u16" where
  "abc_regs = (\<lambda>_. 0)(0x1000 := 0x4142, 0x1001 := 0x4300)"

text \<open>
  The same device with the product name of module 1 (registers \<open>0x1010\<close> to \<open>0x101F\<close>)
  set to \<^verbatim>\<open>CAPAROC E2 12-24DC/2-10A\<close>, two characters per register.
\<close>

definition dial_regs :: "u16 \<Rightarrow> u16" where
  "dial_regs = regs0
     (0x1010 := 0x4341, 0x1011 := 0x5041, 0x1012 := 0x524F, 0x1013 := 0x4320,
      0x1014 := 0x4532, 0x1015 := 0x2031, 0x1016 := 0x322D, 0x1017 := 0x3234,
      0x1018 := 0x4443, 0x1019 := 0x2F32, 0x101A := 0x2D31, 0x101B := 0x3041)"

definition dial_world :: "device world" where
  "dial_world = \<lparr>conn = \<lparr>regs = dial_regs, faults = []\<rparr>, trace = []\<rparr>"

section \<open>Notions used to state the properties\<close>

text \<open>
  The events that \<open>f\<close> adds to the trace of \<open>w\<close> are those of the resulting world
  beyond the ones \<open>w\<close> already had.
\<close>

definition new_events :: "'c world \<Rightarrow> 'c world \<Rightarrow> event list" where
  "new_events w w' = drop (length (trace w)) (trace w')"

fun is_write :: "event \<Rightarrow> bool" where
  "is_write (EvWrite address val ok) = True"
| "is_write (EvRead address r) = False"
| "is_write (EvReadBlock address count ok) = False"
| "is_write (EvSleep ms) = False"

definition no_writes :: "event list \<Rightarrow> bool" where
  "no_writes es \<longleftrightarrow> filter is_write es = []"

text \<open>
  The specification's words for the 32-byte fields: 16 registers, each giving its high
  byte and then its low byte, concatenated in register order.
\<close>

definition string32_bytes :: "(nat \<Rightarrow> u16) \<Rightarrow> string" where
  "string32_bytes vals =
     concat (map (\<lambda>i. [char_of (unat (vals i) div 256), char_of (unat (vals i) mod 256)])
               [0..<16])"

text \<open>
  One attempt of the write/verify loop, as the events it leaves. An attempt fails when
  the write fails (then a delay), or when the write succeeds and, after a delay, the
  read-back fails or differs from the written value (then a second delay). The
  verified attempt is a successful write, a delay, and a read-back equal to the value.
\<close>

definition failed_attempt :: "u16 \<Rightarrow> u16 \<Rightarrow> event list \<Rightarrow> bool" where
  "failed_attempt address val es \<longleftrightarrow>
     es = [EvWrite address val False, EvSleep 50] \<or>
     (\<exists>r. r \<noteq> Some val \<and>
          es = [EvWrite address val True, EvSleep 50, EvRead address r, EvSleep 50])"

definition verified_attempt :: "u16 \<Rightarrow> u16 \<Rightarrow> event list" where
  "verified_attempt address val =
     [EvWrite address val True, EvSleep 50, EvRead address (Some val)]"

text \<open>
  The exit paths of the handshake after the settling delay, each with the result it
  returns and the events it leaves from the first lock write on.
\<close>

inductive protocol_trace :: "u8 \<Rightarrow> u8 \<Rightarrow> u16 \<Rightarrow> bool \<Rightarrow> event list \<Rightarrow> bool"
  for m :: u8 and ch :: u8 and v :: u16 where
  UnlockChannelFailed:
    "protocol_trace m ch v False [EvWrite (channel_lock_address m ch) 0 False]"
| UnlockGlobalFailed:
    "protocol_trace m ch v False
       [EvWrite (channel_lock_address m ch) 0 True, EvSleep 50,
        EvWrite global_lock_address 0 False]"
| VerificationFailed:
    "length fs = 5 \<Longrightarrow> \<forall>f\<in>set fs. failed_attempt (channel_address 0xC050 m ch) v f \<Longrightarrow>
     protocol_trace m ch v False
       ([EvWrite (channel_lock_address m ch) 0 True, EvSleep 50,
         EvWrite global_lock_address 0 True, EvSleep 50] @
        concat fs @
        [EvWrite global_lock_address 1 o1, EvWrite (channel_lock_address m ch) 1 o2])"
| RelockGlobalFailed:
    "length fs < 5 \<Longrightarrow> \<forall>f\<in>set fs. failed_attempt (channel_address 0xC050 m ch) v f \<Longrightarrow>
     protocol_trace m ch v False
       ([EvWrite (channel_lock_address m ch) 0 True, EvSleep 50,
         EvWrite global_lock_address 0 True, EvSleep 50] @
        concat fs @ verified_attempt (channel_address 0xC050 m ch) v @
        [EvWrite global_lock_address 1 False])"
| RelockChannelFailed:
    "length fs < 5 \<Longrightarrow> \<forall>f\<in>set fs. failed_attempt (channel_address 0xC050 m ch) v f \<Longrightarrow>
     protocol_trace m ch v False
       ([EvWrite (channel_lock_address m ch) 0 True, EvSleep 50,
         EvWrite global_lock_address 0 True, EvSleep 50] @
        concat fs @ verified_attempt (channel_address 0xC050 m ch) v @
        [EvWrite global_lock_address 1 True, EvSleep 50,
         EvWrite (channel_lock_address m ch) 1 False])"
| Relocked:
    "length fs < 5 \<Longrightarrow> \<forall>f\<in>set fs. failed_attempt (channel_address 0xC050 m ch) v f \<Longrightarrow>
     protocol_trace m ch v True
       ([EvWrite (channel_lock_address m ch) 0 True, EvSleep 50,
         EvWrite global_lock_address 0 True, EvSleep 50] @
        concat fs @ verified_attempt (channel_address 0xC050 m ch) v @
        [EvWrite global_lock_address 1 True, EvSleep 50,
         EvWrite (channel_lock_address m ch) 1 True, EvSleep 100])"

text \<open>The writes of 1 (locked) to the lock register \<open>address\<close> among some events.\<close>

definition relock_writes :: "u16 \<Rightarrow> event list \<Rightarrow> event list" where
  "relock_writes address es =
     filter (\<lambda>e. e = EvWrite address 1 True \<or> e = EvWrite address 1 False) es"

text \<open>
  The validation policy of section 4.3 of the specification, for the result \<open>res\<close> of
  an operation called on module \<open>m\<close> and channel \<open>ch\<close> in the world \<open>w\<close>:
  \<^item> the call starts by reading the number of connected modules from the device;
  \<^item> an exception leaves no write among the new events;
  \<^item> with the module count \<open>n\<close> read, a module outside \<open>1..n\<close> raises
    \<open>InvalidModuleNumber m n\<close>; otherwise the channel count of the module is read, and
    with the count \<open>k\<close> read, a channel outside \<open>1..k\<close> raises
    \<open>InvalidChannelNumber ch m k\<close>; in both cases nothing else has been done;
  \<^item> conversely, an \<open>InvalidModuleNumber\<close> or \<open>InvalidChannelNumber\<close> carries the
    arguments of the call and a count that this call has read from the device, and the
    argument is outside the range up to that count.
\<close>

definition validation_policy ::
  "'c transport \<Rightarrow> 'c world \<Rightarrow> u8 \<Rightarrow> u8 \<Rightarrow> (error + 'a) \<times> 'c world \<Rightarrow> bool" where
  "validation_policy T w m ch res \<longleftrightarrow>
     (\<exists>r es. new_events w (snd res) = EvRead 0x2000 r # es) \<and>
     (\<forall>e. fst res = Inl e \<longrightarrow> no_writes (new_events w (snd res))) \<and>
     (case get_number_of_connected_modules T w of
        (None, w1) \<Rightarrow> res = (Inl ModuleCountReadFailed, w1)
      | (Some n, w1) \<Rightarrow>
          if uint m < 1 \<or> uint n < uint m
          then res = (Inl (InvalidModuleNumber m n), w1)
          else (case get_number_of_channels_for_module T w1 m of
                  (None, w2) \<Rightarrow> res = (Inl (ChannelCountReadFailed m), w2)
                | (Some k, w2) \<Rightarrow>
                    if uint ch < 1 \<or> uint k < uint ch
                    then res = (Inl (InvalidChannelNumber ch m k), w2)
                    else True)) \<and>
     (\<forall>m' n. fst res = Inl (InvalidModuleNumber m' n) \<longrightarrow>
        m' = m \<and> (uint m < 1 \<or> uint n < uint m) \<and>
        EvRead 0x2000 (Some n) \<in> set (new_events w (snd res))) \<and>
     (\<forall>ch' m' k. fst res = Inl (InvalidChannelNumber ch' m' k) \<longrightarrow>
        ch' = ch \<and> m' = m \<and> (uint ch < 1 \<or> uint k < uint ch) \<and>
        EvRead (0x2001 + (ucast m - 1)) (Some k) \<in> set (new_events w (snd res)))"

declare string32_loop.simps [simp del]
declare write_verify_loop.simps [simp del]

section \<open>Evaluating the model on the device\<close>

lemmas sim_defs =
  sim_def sim_read_register_def sim_read_registers_def sim_write_register_def
  next_fault_def start_def regs0_def

lemmas access_defs =
  read_uint16_def write_uint16_def conn_read_register_def conn_read_registers_def
  conn_write_register_def sleep_for_def

lemmas topology_defs =
  get_number_of_connected_modules_def get_number_of_channels_for_module_def
  validate_module_number_def validate_channel_number_def

section \<open>Status decoding\<close>

lemma decode_global_status_bits:
  "undervoltage (decode_global_status val) = bit val 0"
  "overvoltage (decode_global_status val) = bit val 1"
  "cumulative_channel_error (decode_global_status val) = bit val 2"
  "cumulative_80_warning (decode_global_status val) = bit val 3"
  "system_current_too_high (decode_global_status val) = bit val 4"
  by (simp_all add: decode_global_status_def bit_iff_and_push_bit_not_eq_0)

lemma decode_channel_status_bits:
  "warning_80_percent (decode_channel_status val) = bit val 0"
  "overload (decode_channel_status val) = bit val 1"
  "short_circuit (decode_channel_status val) = bit val 2"
  "hardware_error (decode_channel_status val) = bit val 3"
  "voltage_error (decode_channel_status val) = bit val 4"
  "module_current_too_high (decode_channel_status val) = bit val 5"
  "ch_system_current_too_high (decode_channel_status val) = bit val 6"
  by (simp_all add: decode_channel_status_def bit_iff_and_push_bit_not_eq_0)

lemma decode_global_status_reserved:
  "decode_global_status (val AND 0x1F) = decode_global_status val"
  by (simp add: decode_global_status_def and.assoc)

lemma decode_channel_status_reserved:
  "decode_channel_status (val AND 0x7F) = decode_channel_status val"
  by (simp add: decode_channel_status_def and.assoc)

lemma get_global_status_decodes:
  "get_global_status T w =
     (map_option decode_global_status (fst (read_uint16 T w 0x6000)),
      snd (read_uint16 T w 0x6000))"
  by (simp add: get_global_status_def split: prod.splits option.splits)

lemma get_channel_status_decodes:
  "get_channel_status T w m ch =
     (case validate_module_number T w m of
        (Inl e, w1) \<Rightarrow> (Inl e, w1)
      | (Inr u, w1) \<Rightarrow>
          (case validate_channel_number T w1 m ch of
             (Inl e, w2) \<Rightarrow> (Inl e, w2)
           | (Inr u', w2) \<Rightarrow>
               (Inr (map_option decode_channel_status
                       (fst (read_uint16 T w2 (channel_address 0x6010 m ch)))),
                snd (read_uint16 T w2 (channel_address 0x6010 m ch)))))"
  by (simp add: get_channel_status_def split: prod.splits option.splits sum.splits)

text \<open>
  C6. Decoding a status word cannot fail and is bit-exact. For every 16-bit word, flag
  number \<open>i\<close> of the five global flags, and of the seven channel flags, is true exactly
  when bit \<open>i\<close> of the word is set, and the bits above the defined ones do not matter
  (masking them away gives the same flags). \<^verbatim>\<open>get_global_status\<close> returns the decoded
  word whenever the register read returns one, and \<^verbatim>\<open>get_channel_status\<close> does so
  once the module and channel number have passed validation: the only failures are
  those of the read and of the validation.
\<close>

theorem status_decoding_bit_exact:
  "undervoltage (decode_global_status val) = bit val 0 \<and>
   overvoltage (decode_global_status val) = bit val 1 \<and>
   cumulative_channel_error (decode_global_status val) = bit val 2 \<and>
   cumulative_80_warning (decode_global_status val) = bit val 3 \<and>
   system_current_too_high (decode_global_status val) = bit val 4 \<and>
   decode_global_status (val AND 0x1F) = decode_global_status val \<and>
   warning_80_percent (decode_channel_status val) = bit val 0 \<and>
   overload (decode_channel_status val) = bit val 1 \<and>
   short_circuit (decode_channel_status val) = bit val 2 \<and>
   hardware_error (decode_channel_status val) = bit val 3 \<and>
   voltage_error (decode_channel_status val) = bit val 4 \<and>
   module_current_too_high (decode_channel_status val) = bit val 5 \<and>
   ch_system_current_too_high (decode_channel_status val) = bit val 6 \<and>
   decode_channel_status (val AND 0x7F) = decode_channel_status val \<and>
   get_global_status T w =
     (map_option decode_global_status (fst (read_uint16 T w 0x6000)),
      snd (read_uint16 T w 0x6000)) \<and>
   get_channel_status T w m ch =
     (case validate_module_number T w m of
        (Inl e, w1) \<Rightarrow> (Inl e, w1)
      | (Inr u, w1) \<Rightarrow>
          (case validate_channel_number T w1 m ch of
             (Inl e, w2) \<Rightarrow> (Inl e, w2)
           | (Inr u', w2) \<Rightarrow>
               (Inr (map_option decode_channel_status
                       (fst (read_uint16 T w2 (channel_address 0x6010 m ch)))),
                snd (read_uint16 T w2 (channel_address 0x6010 m ch)))))"
  using decode_global_status_bits [of val] decode_channel_status_bits [of val]
    decode_global_status_reserved [of val] decode_channel_status_reserved [of val]
    get_global_status_decodes [of T w] get_channel_status_decodes [of T w m ch]
  by (intro conjI) (simp_all only:)

section \<open>Addresses\<close>

lemma mod_window_inj:
  fixes x y b :: int
  assumes "(b + x) mod 65536 = (b + y) mod 65536"
    and "0 \<le> x" and "x < 65536" and "0 \<le> y" and "y < 65536"
  shows "x = y"
proof -
  from assms(1) have "65536 dvd ((b + x) - (b + y))"
    by (simp only: mod_eq_dvd_iff)
  then have "65536 dvd (x - y)" by simp
  then obtain k where k: "x - y = 65536 * k" by (auto simp: dvd_def)
  with assms(2-5) have "k = 0" by arith
  with k show ?thesis by simp
qed

text \<open>
  C7. For any base address, the mapping from (module, channel) to
  \<open>base + (module - 1) * 4 + (channel - 1)\<close>, stored in 16 bits, is injective over a
  topology of \<open>N\<close> modules whose channel counts \<open>cc\<close> are at most 4: two distinct pairs
  with \<open>1 \<le> m \<le> N\<close> and \<open>1 \<le> c \<le> cc m\<close> get distinct addresses.
\<close>

theorem channel_address_injective:
  assumes "\<forall>m. cc m \<le> 4"
    and "1 \<le> uint m" and "uint m \<le> N" and "1 \<le> uint c" and "uint c \<le> cc m"
    and "1 \<le> uint m'" and "uint m' \<le> N" and "1 \<le> uint c'" and "uint c' \<le> cc m'"
    and "(m, c) \<noteq> (m', c')"
  shows "channel_address base m c \<noteq> channel_address base m' c'"
proof
  assume "channel_address base m c = channel_address base m' c'"
  then have "uint (word_of_int (base + ((uint m - 1) * 4 + (uint c - 1))) :: u16)
     = uint (word_of_int (base + ((uint m' - 1) * 4 + (uint c' - 1))) :: u16)"
    unfolding channel_address_def by (simp only: add.assoc)
  then have e: "(base + ((uint m - 1) * 4 + (uint c - 1))) mod 65536
     = (base + ((uint m' - 1) * 4 + (uint c' - 1))) mod 65536"
    by (simp only: uint_word_of_int_eq take_bit_eq_mod) simp
  have b: "uint m < 256" "uint m' < 256"
    using uint_bounded [of m] uint_bounded [of m'] by simp_all
  have c4: "uint c \<le> 4" "uint c' \<le> 4"
    using assms(1,5,9) by (auto intro: order_trans)
  have "(uint m - 1) * 4 + (uint c - 1) = (uint m' - 1) * 4 + (uint c' - 1)"
    using assms(2,4,6,8) b c4 by (intro mod_window_inj [OF e]) arith+
  then have "uint m = uint m' \<and> uint c = uint c'"
    using assms(2,4,6,8) c4 by arith
  then show False
    using assms(10) by (simp add: word_uint_eq_iff)
qed

theorem channel_address_injective_witness:
  "(\<forall>m::u8. (\<lambda>_. 4 :: int) m \<le> 4) \<and>
   1 \<le> uint (1::u8) \<and> uint (1::u8) \<le> 2 \<and> 1 \<le> uint (4::u8) \<and> uint (4::u8) \<le> 4 \<and>
   1 \<le> uint (2::u8) \<and> uint (2::u8) \<le> 2 \<and> 1 \<le> uint (1::u8) \<and> uint (1::u8) \<le> 4 \<and>
   ((1::u8), (4::u8)) \<noteq> (2, 1) \<and>
   channel_address 0xC050 1 4 = 0xC053 \<and> channel_address 0xC050 2 1 = 0xC054 \<and>
   channel_address 0xC050 1 4 \<noteq> channel_address 0xC050 2 1"
  using channel_address_injective
          [where cc = "\<lambda>_. 4" and m = 1 and N = 2 and c = 4 and m' = 2 and c' = 1
             and base = "0xC050"]
  by (simp add: channel_address_def)

section \<open>Strings of 32 bytes: the bytes and the cut at the first null byte\<close>

lemma ff_mask: "(0xFF :: u16) = mask 8"
  by (simp add: mask_eq_exp_minus_1)

lemma high_byte: "char_of (unat (drop_bit 8 (v::u16) AND 0xFF)) = char_of (unat v div 256)"
proof -
  have "drop_bit 8 v AND 0xFF = take_bit 8 (drop_bit 8 v)"
    unfolding ff_mask by (simp only: take_bit_eq_mask)
  then have "unat (drop_bit 8 v AND 0xFF) = (unat v div 256) mod 256"
    by (simp add: take_bit_eq_mod drop_bit_eq_div unat_mod unat_div)
  then show ?thesis by (simp only: char_of_mod_256)
qed

lemma low_byte: "char_of (unat ((v::u16) AND 0xFF)) = char_of (unat v mod 256)"
proof -
  have "v AND 0xFF = take_bit 8 v"
    unfolding ff_mask by (simp only: take_bit_eq_mask)
  then have "unat (v AND 0xFF) = unat v mod 256"
    by (simp add: take_bit_eq_mod unat_mod)
  then show ?thesis by (simp only:)
qed

lemma string32_loop_from:
  "0 \<le> i \<Longrightarrow> i \<le> 16 \<Longrightarrow>
   string32_loop vals i acc =
     acc @ concat (map (\<lambda>i. [char_of (unat (vals i) div 256), char_of (unat (vals i) mod 256)])
                     [nat i..<16])"
proof (induction vals i acc rule: string32_loop.induct)
  case (1 vals i result)
  let ?f = "\<lambda>i. [char_of (unat (vals i) div 256), char_of (unat (vals i) mod 256)]"
  show ?case
  proof (cases "i < 16")
    case True
    then have u: "[nat i..<16] = nat i # [nat (i + 1)..<16]"
      using 1(2) by (simp add: upt_conv_Cons nat_add_distrib)
    let ?b = "[char_of (unat (drop_bit 8 (vals (nat i)) AND 0xFF)),
               char_of (unat (vals (nat i) AND 0xFF))]"
    have b: "?b = ?f (nat i)"
      by (simp only: high_byte, simp only: low_byte)
    have "string32_loop vals i result = string32_loop vals (i + 1) (result @ ?b)"
      using True by (subst string32_loop.simps) (simp only: if_True)
    also have "\<dots> = (result @ ?b) @ concat (map ?f [nat (i + 1)..<16])"
      using True 1(2) by (intro 1(1)) simp_all
    also have "\<dots> = result @ concat (map ?f [nat i..<16])"
      by (simp only: b u list.map concat.simps append_assoc)
    finally show ?thesis .
  next
    case False
    with 1 have "i = 16" by simp
    then show ?thesis by (subst string32_loop.simps) simp
  qed
qed

lemma string32_loop_bytes: "string32_loop vals 0 [] = string32_bytes vals"
  using string32_loop_from [of 0 vals "[]"] by (simp add: string32_bytes_def)

lemma find_char_take:
  "(case find_char s c of Some e \<Rightarrow> take e s | None \<Rightarrow> s) = takeWhile (\<lambda>x. x \<noteq> c) s"
  by (induction s) (auto split: option.splits)

lemma length_string32_bytes: "length (string32_bytes vals) = 32"
  by (simp add: string32_bytes_def length_concat comp_def sum_list_triv)

lemma read_string32_decodes:
  "read_string32 T w address =
     (case conn_read_registers T w address 16 of
        (None, w') \<Rightarrow> (None, w')
      | (Some vals, w') \<Rightarrow>
          (Some (takeWhile (\<lambda>c. c \<noteq> CHR 0x00) (string32_bytes vals)), w'))"
  unfolding read_string32_def string32_loop_bytes Let_def
  by (simp add: find_char_take [symmetric] split: prod.splits option.splits)

lemma char_of_65: "char_of (65::nat) = CHR ''A''"
  by code_simp

text \<open>
  C8. \<^verbatim>\<open>read_string32\<close> reads 16 consecutive registers in one block read; when that
  read fails so does the function, and otherwise the result is the 32 bytes (of each
  register the high byte, then the low byte, in register order) up to, and without,
  the first null byte. Without a null byte among them, all 32 bytes are returned.
\<close>

theorem read_string32_bytes_until_null:
  "read_string32 T w address =
     (case conn_read_registers T w address 16 of
        (None, w') \<Rightarrow> (None, w')
      | (Some vals, w') \<Rightarrow>
          (Some (takeWhile (\<lambda>c. c \<noteq> CHR 0x00) (string32_bytes vals)), w')) \<and>
   length (string32_bytes vals) = 32 \<and>
   (CHR 0x00 \<notin> set (string32_bytes vals) \<longrightarrow>
      takeWhile (\<lambda>c. c \<noteq> CHR 0x00) (string32_bytes vals) = string32_bytes vals)"
  using read_string32_decodes [of T w address] length_string32_bytes [of vals]
  by (auto simp: takeWhile_eq_all_conv)

theorem read_string32_bytes_until_null_witness:
  "CHR 0x00 \<notin> set (string32_bytes (\<lambda>_. 0x4141)) \<and>
   fst (read_string32 sim \<lparr>conn = \<lparr>regs = (\<lambda>_. 0x4141), faults = []\<rparr>, trace = []\<rparr> 0x1000)
     = Some (string32_bytes (\<lambda>_. 0x4141)) \<and>
   length (string32_bytes (\<lambda>_. 0x4141)) = 32"
proof -
  have n: "CHR 0x00 \<notin> set (string32_bytes (\<lambda>_. 0x4141))"
    by (simp add: string32_bytes_def char_of_65)
  show ?thesis
    using n read_string32_bytes_until_null
            [where T = sim and address = "0x1000" and vals = "\<lambda>_. 0x4141"
               and w = "\<lparr>conn = \<lparr>regs = (\<lambda>_. 0x4141), faults = []\<rparr>, trace = []\<rparr>"]
    by (simp add: conn_read_registers_def sim_defs)
qed

section \<open>The channel count of a module\<close>

text \<open>
  C10. For a module number that is 0 or greater than 16,
  \<^verbatim>\<open>get_number_of_channels_for_module\<close> returns the empty optional and leaves the
  world as it was: no transport call is made. For a module number from 1 to 16 it makes
  exactly one transport call, the read of register \<open>0x2001 + (module_number - 1)\<close>, and
  returns what that read returns.
\<close>

theorem get_number_of_channels_for_module_bound:
  "(uint m = 0 \<or> 16 < uint m \<longrightarrow> get_number_of_channels_for_module T w m = (None, w)) \<and>
   (1 \<le> uint m \<and> uint m \<le> 16 \<longrightarrow>
      get_number_of_channels_for_module T w m =
        (fst (read_register T (conn w) (0x2001 + (ucast m - 1))),
         \<lparr>conn = snd (read_register T (conn w) (0x2001 + (ucast m - 1))),
          trace = trace w @
            [EvRead (0x2001 + (ucast m - 1))
               (fst (read_register T (conn w) (0x2001 + (ucast m - 1))))]\<rparr>))"
  by (auto simp: get_number_of_channels_for_module_def read_uint16_def conn_read_register_def
      split: prod.splits option.splits)

theorem get_number_of_channels_for_module_bound_witness:
  "(uint (17::u8) = 0 \<or> 16 < uint (17::u8)) \<and>
   get_number_of_channels_for_module sim (start []) 17 = (None, start []) \<and>
   1 \<le> uint (1::u8) \<and> uint (1::u8) \<le> 16 \<and>
   fst (get_number_of_channels_for_module sim (start []) 1) = Some 4 \<and>
   trace (snd (get_number_of_channels_for_module sim (start []) 1)) = [EvRead 0x2001 (Some 4)]"
proof -
  have a: "get_number_of_channels_for_module sim (start []) 17 = (None, start [])"
    using get_number_of_channels_for_module_bound [where m = 17 and T = sim and w = "start []"]
    by simp
  have b: "fst (get_number_of_channels_for_module sim (start []) 1) = Some 4 \<and>
     trace (snd (get_number_of_channels_for_module sim (start []) 1)) = [EvRead 0x2001 (Some 4)]"
    using get_number_of_channels_for_module_bound [where m = 1 and T = sim and w = "start []"]
    by (simp add: sim_defs)
  from a b show ?thesis by simp
qed

section \<open>The events of the protected write\<close>

lemma trace_read_uint16:
  "read_uint16 T w a = (r, w') \<Longrightarrow> trace w' = trace w @ [EvRead a r]"
  by (auto simp: read_uint16_def conn_read_register_def split: prod.splits option.splits)

lemma trace_write_uint16:
  "write_uint16 T w a v = (ok, w') \<Longrightarrow> trace w' = trace w @ [EvWrite a v ok]"
  by (auto simp: write_uint16_def conn_write_register_def split: prod.splits)

lemma trace_sleep_for [simp]: "trace (sleep_for ms w) = trace w @ [EvSleep ms]"
  by (simp add: sleep_for_def)

lemma loop_trace:
  "0 \<le> k \<Longrightarrow> k \<le> 5 \<Longrightarrow> write_verify_loop T w a v k = (b, w') \<Longrightarrow>
   \<exists>fs. trace w' = trace w @ concat fs @ (if b then verified_attempt a v else []) \<and>
        (\<forall>f\<in>set fs. failed_attempt a v f) \<and>
        (if b then int (length fs) + k < 5 else int (length fs) + k = 5)"
proof (induction "nat (5 - k)" arbitrary: k w)
  case 0
  then have "k = 5" by simp
  with 0(4) have "b = False" "w' = w"
    by (simp_all add: write_verify_loop.simps kRetries_def)
  with \<open>k = 5\<close> show ?case by (intro exI[of _ "[]"]) simp
next
  case (Suc n)
  then have k: "k < 5" "0 \<le> k + 1" "k + 1 \<le> 5" "n = nat (5 - (k + 1))" by simp_all
  obtain ok w1 where wr: "write_uint16 T w a v = (ok, w1)" by (cases "write_uint16 T w a v")
  note t1 = trace_write_uint16[OF wr]
  show ?case
  proof (cases ok)
    case False
    with Suc.prems(3) k(1) wr
    have "write_verify_loop T (sleep_for kDelay w1) a v (k + 1) = (b, w')"
      by (subst (asm) write_verify_loop.simps) (simp add: kRetries_def)
    from Suc.hyps(1)[OF k(4) k(2) k(3) this] obtain fs where
      fs: "trace w' = trace (sleep_for kDelay w1) @ concat fs @ (if b then verified_attempt a v else [])"
        "\<forall>f\<in>set fs. failed_attempt a v f"
        "if b then int (length fs) + (k + 1) < 5 else int (length fs) + (k + 1) = 5"
      by blast
    show ?thesis
      using fs t1 False
      by (intro exI[of _ "[EvWrite a v False, EvSleep 50] # fs"])
         (auto simp: failed_attempt_def kDelay_def split: if_splits)
  next
    case True
    obtain r w2 where rd: "read_uint16 T (sleep_for kDelay w1) a = (r, w2)"
      by (cases "read_uint16 T (sleep_for kDelay w1) a")
    note t2 = trace_read_uint16[OF rd]
    show ?thesis
    proof (cases "r = Some v")
      case eq: True
      with Suc.prems(3) k(1) wr rd True have "b = True" "w' = w2"
        by (subst (asm) write_verify_loop.simps, simp add: kRetries_def)+
      then show ?thesis
        using t1 t2 True eq k(1)
        by (intro exI[of _ "[]"]) (simp add: verified_attempt_def kDelay_def)
    next
      case ne: False
      then have "\<not> (r \<noteq> None \<and> the r = v)" by auto
      with Suc.prems(3) k(1) wr rd True
      have "write_verify_loop T (sleep_for kDelay w2) a v (k + 1) = (b, w')"
        by (subst (asm) write_verify_loop.simps) (auto simp: kRetries_def split: if_splits)
      from Suc.hyps(1)[OF k(4) k(2) k(3) this] obtain fs where
        fs: "trace w' = trace (sleep_for kDelay w2) @ concat fs @ (if b then verified_attempt a v else [])"
          "\<forall>f\<in>set fs. failed_attempt a v f"
          "if b then int (length fs) + (k + 1) < 5 else int (length fs) + (k + 1) = 5"
        by blast
      show ?thesis
        using fs t1 t2 True ne
        by (intro exI[of _ "[EvWrite a v True, EvSleep 50, EvRead a r, EvSleep 50] # fs"])
           (auto simp: failed_attempt_def kDelay_def split: if_splits)
    qed
  qed
qed

lemma loop_trace_from_start:
  assumes "write_verify_loop T w a v 0 = (b, w')"
  shows "\<exists>fs. trace w' = trace w @ concat fs @ (if b then verified_attempt a v else []) \<and>
        (\<forall>f\<in>set fs. failed_attempt a v f) \<and>
        (if b then length fs < 5 else length fs = 5)"
proof -
  from loop_trace [OF _ _ assms] obtain fs where
    "trace w' = trace w @ concat fs @ (if b then verified_attempt a v else [])"
    "\<forall>f\<in>set fs. failed_attempt a v f"
    "if b then int (length fs) + 0 < 5 else int (length fs) + 0 = 5"
    by auto
  then show ?thesis
    by (intro exI [of _ fs]) (auto split: if_splits)
qed

lemma handshake_trace:
  assumes "set_nominal_current_handshake T w m ch v = (b, w')"
  shows "\<exists>r proto. trace w' = trace w @
            [EvRead 0x6006 r, EvSleep (uint (case r of Some c \<Rightarrow> c | None \<Rightarrow> 100) + 50)] @ proto \<and>
          protocol_trace m ch v b proto"
proof -
  let ?chl = "channel_lock_address m ch" and ?a = "channel_address 0xC050 m ch"
  obtain r w4 where rd: "read_uint16 T w 0x6006 = (r, w4)"
    by (cases "read_uint16 T w 0x6006")
  let ?p = "uint (case r of Some c \<Rightarrow> c | None \<Rightarrow> 100) + 50"
  let ?w5 = "sleep_for ?p w4"
  have t5: "trace ?w5 = trace w @ [EvRead 0x6006 r, EvSleep ?p]"
    using trace_read_uint16 [OF rd] by simp
  obtain ok1 w6 where u1: "write_uint16 T ?w5 ?chl 0 = (ok1, w6)"
    by (cases "write_uint16 T ?w5 ?chl 0")
  note t6 = trace_write_uint16 [OF u1]
  obtain ok2 w7 where u2: "write_uint16 T (sleep_for kDelay w6) global_lock_address 0 = (ok2, w7)"
    by (cases "write_uint16 T (sleep_for kDelay w6) global_lock_address 0")
  note t7 = trace_write_uint16 [OF u2]
  obtain vf w8 where lp: "write_verify_loop T (sleep_for kDelay w7) ?a v 0 = (vf, w8)"
    by (cases "write_verify_loop T (sleep_for kDelay w7) ?a v 0")
  from loop_trace_from_start [OF lp] obtain fs where
    fs: "trace w8 = trace (sleep_for kDelay w7) @ concat fs @ (if vf then verified_attempt ?a v else [])"
      "\<forall>f\<in>set fs. failed_attempt ?a v f"
      "if vf then length fs < 5 else length fs = 5"
    by blast
  obtain ok3 w9 where r1: "write_uint16 T w8 global_lock_address 1 = (ok3, w9)"
    by (cases "write_uint16 T w8 global_lock_address 1")
  note t9 = trace_write_uint16 [OF r1]
  obtain ok4 w10 where r2: "write_uint16 T w9 ?chl 1 = (ok4, w10)"
    by (cases "write_uint16 T w9 ?chl 1")
  note t10 = trace_write_uint16 [OF r2]
  obtain ok5 w11 where r3: "write_uint16 T (sleep_for kDelay w9) ?chl 1 = (ok5, w11)"
    by (cases "write_uint16 T (sleep_for kDelay w9) ?chl 1")
  note t11 = trace_write_uint16 [OF r3]
  have res: "(b, w') =
     (if \<not> ok1 then (False, w6)
      else if \<not> ok2 then (False, w7)
      else if \<not> vf then (False, w10)
      else if \<not> ok3 then (False, w9)
      else if \<not> ok5 then (False, w11)
      else (True, sleep_for 100 w11))"
    using assms rd u1 u2 lp r1 r2 r3
    by (cases ok1; cases ok2; cases vf; cases ok3; cases ok5)
       (simp_all add: set_nominal_current_handshake_def Let_def)
  consider (a) "\<not> ok1" | (b) "ok1" "\<not> ok2" | (c) "ok1" "ok2" "\<not> vf"
    | (d) "ok1" "ok2" "vf" "\<not> ok3" | (e) "ok1" "ok2" "vf" "ok3" "\<not> ok5"
    | (f) "ok1" "ok2" "vf" "ok3" "ok5"
    by blast
  then show ?thesis
  proof cases
    case a
    with res t5 t6 show ?thesis
      by (intro exI [of _ r] exI [of _ "[EvWrite ?chl 0 False]"])
         (simp add: UnlockChannelFailed)
  next
    case b
    with res t5 t6 t7 show ?thesis
      by (intro exI [of _ r]
            exI [of _ "[EvWrite ?chl 0 True, EvSleep 50, EvWrite global_lock_address 0 False]"])
         (simp add: UnlockGlobalFailed kDelay_def)
  next
    case c
    with fs have "protocol_trace m ch v False
       ([EvWrite ?chl 0 True, EvSleep 50, EvWrite global_lock_address 0 True, EvSleep 50] @
        concat fs @ [EvWrite global_lock_address 1 ok3, EvWrite ?chl 1 ok4])"
      by (intro VerificationFailed) simp_all
    with c res t5 t6 t7 fs(1) t9 t10 show ?thesis
      by (intro exI [of _ r]
            exI [of _ "[EvWrite ?chl 0 True, EvSleep 50, EvWrite global_lock_address 0 True, EvSleep 50] @
        concat fs @ [EvWrite global_lock_address 1 ok3, EvWrite ?chl 1 ok4]"])
         (simp add: kDelay_def)
  next
    case d
    with fs have "protocol_trace m ch v False
       ([EvWrite ?chl 0 True, EvSleep 50, EvWrite global_lock_address 0 True, EvSleep 50] @
        concat fs @ verified_attempt ?a v @ [EvWrite global_lock_address 1 False])"
      by (intro RelockGlobalFailed) simp_all
    with d res t5 t6 t7 fs(1) t9 show ?thesis
      by (intro exI [of _ r]
            exI [of _ "[EvWrite ?chl 0 True, EvSleep 50, EvWrite global_lock_address 0 True, EvSleep 50] @
        concat fs @ verified_attempt ?a v @ [EvWrite global_lock_address 1 False]"])
         (simp add: kDelay_def)
  next
    case e
    with fs have "protocol_trace m ch v False
       ([EvWrite ?chl 0 True, EvSleep 50, EvWrite global_lock_address 0 True, EvSleep 50] @
        concat fs @ verified_attempt ?a v @
        [EvWrite global_lock_address 1 True, EvSleep 50, EvWrite ?chl 1 False])"
      by (intro RelockChannelFailed) simp_all
    with e res t5 t6 t7 fs(1) t9 t11 show ?thesis
      by (intro exI [of _ r]
            exI [of _ "[EvWrite ?chl 0 True, EvSleep 50, EvWrite global_lock_address 0 True, EvSleep 50] @
        concat fs @ verified_attempt ?a v @
        [EvWrite global_lock_address 1 True, EvSleep 50, EvWrite ?chl 1 False]"])
         (simp add: kDelay_def)
  next
    case f
    with fs have "protocol_trace m ch v True
       ([EvWrite ?chl 0 True, EvSleep 50, EvWrite global_lock_address 0 True, EvSleep 50] @
        concat fs @ verified_attempt ?a v @
        [EvWrite global_lock_address 1 True, EvSleep 50, EvWrite ?chl 1 True, EvSleep 100])"
      by (intro Relocked) simp_all
    with f res t5 t6 t7 fs(1) t9 t11 show ?thesis
      by (intro exI [of _ r]
            exI [of _ "[EvWrite ?chl 0 True, EvSleep 50, EvWrite global_lock_address 0 True, EvSleep 50] @
        concat fs @ verified_attempt ?a v @
        [EvWrite global_lock_address 1 True, EvSleep 50, EvWrite ?chl 1 True, EvSleep 100]"])
         (simp add: kDelay_def)
  qed
qed

lemma no_writes_simps [simp]:
  "no_writes []"
  "no_writes (e # es) \<longleftrightarrow> \<not> is_write e \<and> no_writes es"
  "no_writes (es @ es') \<longleftrightarrow> no_writes es \<and> no_writes es'"
  by (auto simp: no_writes_def)

lemma new_events_append [simp]: "trace w' = trace w @ es \<Longrightarrow> new_events w w' = es"
  by (simp add: new_events_def)

lemma trace_validate_module_number:
  "validate_module_number T w m = (r, w1) \<Longrightarrow> \<exists>n. trace w1 = trace w @ [EvRead 0x2000 n]"
  by (auto simp: validate_module_number_def get_number_of_connected_modules_def
      split: prod.splits option.splits if_splits dest: trace_read_uint16)

lemma trace_validate_channel_number:
  "validate_channel_number T w m ch = (r, w2) \<Longrightarrow>
   \<exists>es. trace w2 = trace w @ es \<and> no_writes es"
  by (auto simp: validate_channel_number_def get_number_of_channels_for_module_def
      split: prod.splits option.splits if_splits dest: trace_read_uint16)

lemma trace_read_string32:
  "read_string32 T w a = (r, w') \<Longrightarrow> trace w' = trace w @ [EvReadBlock a 16 (r \<noteq> None)]"
  by (auto simp: read_string32_decodes conn_read_registers_def split: prod.splits option.splits)

lemma trace_get_product_name_module:
  "get_product_name_module T w m = (r, w3) \<Longrightarrow>
   \<exists>es. trace w3 = trace w @ es \<and> no_writes es"
  by (auto simp: get_product_name_module_def
      split: prod.splits sum.splits dest!: trace_validate_module_number trace_read_string32)

lemma set_nominal_current_cases:
  assumes "set_nominal_current T w m ch v = (res, w')"
  shows "(\<exists>e. res = Inl e \<and> validate_module_number T w m = (Inl e, w')) \<or>
    (\<exists>w1. validate_module_number T w m = (Inr (), w1) \<and>
      ((\<exists>e. res = Inl e \<and> validate_channel_number T w1 m ch = (Inl e, w')) \<or>
       (\<exists>w2. validate_channel_number T w1 m ch = (Inr (), w2) \<and>
         ((\<exists>e. res = Inl e \<and> get_product_name_module T w2 m = (Inl e, w')) \<or>
          (\<exists>name. res = Inl DialOnlyModule \<and>
               get_product_name_module T w2 m = (Inr (Some name), w') \<and>
               contains_str name dial_only_product) \<or>
          (\<exists>name_opt w3 b. res = Inr b \<and>
               get_product_name_module T w2 m = (Inr name_opt, w3) \<and>
               \<not> (name_opt \<noteq> None \<and> contains_str (the name_opt) dial_only_product) \<and>
               set_nominal_current_handshake T w3 m ch v = (b, w'))))))"
  using assms
  by (auto simp: set_nominal_current_def split: prod.splits sum.splits if_splits)

lemma set_nominal_current_Inr:
  assumes "set_nominal_current T w m ch v = (Inr b, w')"
  shows "\<exists>pre w3. trace w3 = trace w @ pre \<and> no_writes pre \<and>
           set_nominal_current_handshake T w3 m ch v = (b, w')"
proof -
  from set_nominal_current_cases [OF assms] obtain w1 w2 name_opt w3 where
    v1: "validate_module_number T w m = (Inr (), w1)" and
    v2: "validate_channel_number T w1 m ch = (Inr (), w2)" and
    pn: "get_product_name_module T w2 m = (Inr name_opt, w3)" and
    hs: "set_nominal_current_handshake T w3 m ch v = (b, w')"
    by auto
  from trace_validate_module_number [OF v1] obtain n where
    t1: "trace w1 = trace w @ [EvRead 0x2000 n]" by blast
  from trace_validate_channel_number [OF v2] obtain es2 where
    t2: "trace w2 = trace w1 @ es2" "no_writes es2" by blast
  from trace_get_product_name_module [OF pn] obtain es3 where
    t3: "trace w3 = trace w2 @ es3" "no_writes es3" by blast
  from t1 t2 t3 hs show ?thesis
    by (intro exI [of _ "[EvRead 0x2000 n] @ es2 @ es3"] exI [of _ w3]) simp
qed

lemma set_nominal_current_Inl:
  assumes "set_nominal_current T w m ch v = (Inl e, w')"
  shows "\<exists>pre. trace w' = trace w @ pre \<and> no_writes pre"
  using set_nominal_current_cases [OF assms]
  by (auto dest!: trace_validate_module_number trace_validate_channel_number
        trace_get_product_name_module)



lemma set_nominal_current_trace:
  assumes "fst (set_nominal_current T w m ch v) = Inr b"
  shows "\<exists>pre r proto.
     new_events w (snd (set_nominal_current T w m ch v)) =
       pre @ [EvRead 0x6006 r, EvSleep (uint (case r of Some c \<Rightarrow> c | None \<Rightarrow> 100) + 50)] @ proto \<and>
     no_writes pre \<and> protocol_trace m ch v b proto"
proof -
  from assms have "set_nominal_current T w m ch v = (Inr b, snd (set_nominal_current T w m ch v))"
    by (simp add: prod_eq_iff)
  from set_nominal_current_Inr [OF this] obtain pre w3 where
    p: "trace w3 = trace w @ pre" "no_writes pre"
      "set_nominal_current_handshake T w3 m ch v = (b, snd (set_nominal_current T w m ch v))"
    by blast
  from handshake_trace [OF p(3)] obtain r proto where
    h: "trace (snd (set_nominal_current T w m ch v)) = trace w3 @
          [EvRead 0x6006 r, EvSleep (uint (case r of Some c \<Rightarrow> c | None \<Rightarrow> 100) + 50)] @ proto"
       "protocol_trace m ch v b proto"
    by blast
  from p(1,2) h show ?thesis
    by (intro exI [of _ pre] exI [of _ r] exI [of _ proto]) (simp add: new_events_def)
qed

lemma set_nominal_current_error_trace:
  assumes "fst (set_nominal_current T w m ch v) = Inl e"
  shows "no_writes (new_events w (snd (set_nominal_current T w m ch v)))"
proof -
  from assms have "set_nominal_current T w m ch v = (Inl e, snd (set_nominal_current T w m ch v))"
    by (simp add: prod_eq_iff)
  from set_nominal_current_Inl [OF this] show ?thesis
    by (auto simp: new_events_def)
qed

lemma protocol_trace_first_write:
  "protocol_trace m ch v b proto \<Longrightarrow>
   \<exists>ok post. proto = EvWrite (channel_lock_address m ch) 0 ok # post"
  by (induction rule: protocol_trace.induct) auto

lemma upt16: "[0..<16] = [0, 1, 2, 3, 4, 5, 6, 7, 8, 9, 10, 11, 12, 13, 14, 15]"
  by (simp add: upt_conv_Cons)

lemma ascii:
  "char_of (0::nat) = CHR 0x00"
  "char_of (32::nat) = CHR '' ''"
  "char_of (45::nat) = CHR ''-''"
  "char_of (47::nat) = CHR ''/''"
  "char_of (48::nat) = CHR ''0''"
  "char_of (49::nat) = CHR ''1''"
  "char_of (50::nat) = CHR ''2''"
  "char_of (52::nat) = CHR ''4''"
  "char_of (65::nat) = CHR ''A''"
  "char_of (66::nat) = CHR ''B''"
  "char_of (67::nat) = CHR ''C''"
  "char_of (68::nat) = CHR ''D''"
  "char_of (69::nat) = CHR ''E''"
  "char_of (79::nat) = CHR ''O''"
  "char_of (80::nat) = CHR ''P''"
  "char_of (82::nat) = CHR ''R''"
  by code_simp+

lemmas run_defs =
  set_nominal_current_def set_nominal_current_handshake_def get_product_name_module_def
  read_string32_decodes string32_bytes_def upt16 ascii
  topology_defs access_defs sim_defs new_events_def
  channel_address_def channel_lock_address_def global_lock_address_def
  kDelay_def kRetries_def dial_only_product_def write_verify_loop.simps

text \<open>
  The example of the specification: registers holding \<^verbatim>\<open>ABC\<close> followed by null bytes
  decode to the three characters.
\<close>

lemma read_string32_abc:
  "fst (read_string32 sim \<lparr>conn = \<lparr>regs = abc_regs, faults = []\<rparr>, trace = []\<rparr> 0x1000)
     = Some ''ABC''"
  by (simp add: read_string32_decodes string32_bytes_def upt16 ascii
        conn_read_registers_def sim_defs abc_regs_def del: char_of_mod_256)

section \<open>Settling before the first lock write\<close>

text \<open>
  C9. A call of \<^verbatim>\<open>set_nominal_current\<close> that raises an exception has written nothing.
  A call that returns has, before its first write, read the bus-cycle register \<open>0x6006\<close>
  and then slept for the period read plus 50 ms, with the period 100 ms when the read
  failed; the first write follows that sleep directly and is the write of 0 to the lock
  register of the channel.
\<close>

theorem settle_before_first_lock_write:
  "(\<forall>e. fst (set_nominal_current T w m ch v) = Inl e \<longrightarrow>
      no_writes (new_events w (snd (set_nominal_current T w m ch v)))) \<and>
   (\<forall>b. fst (set_nominal_current T w m ch v) = Inr b \<longrightarrow>
      (\<exists>pre r ok post.
         new_events w (snd (set_nominal_current T w m ch v)) =
           pre @
           [EvRead 0x6006 r, EvSleep ((case r of Some c \<Rightarrow> uint c | None \<Rightarrow> 100) + 50),
            EvWrite (channel_lock_address m ch) 0 ok] @ post \<and>
         no_writes pre))"
proof (intro conjI allI impI)
  fix e assume "fst (set_nominal_current T w m ch v) = Inl e"
  then show "no_writes (new_events w (snd (set_nominal_current T w m ch v)))"
    by (rule set_nominal_current_error_trace)
next
  fix b assume "fst (set_nominal_current T w m ch v) = Inr b"
  from set_nominal_current_trace [OF this] obtain pre r proto where
    t: "new_events w (snd (set_nominal_current T w m ch v)) =
       pre @ [EvRead 0x6006 r, EvSleep (uint (case r of Some c \<Rightarrow> c | None \<Rightarrow> 100) + 50)] @ proto"
      "no_writes pre" "protocol_trace m ch v b proto"
    by blast
  from protocol_trace_first_write [OF t(3)] obtain ok post where
    "proto = EvWrite (channel_lock_address m ch) 0 ok # post" by blast
  with t(1,2) show "\<exists>pre r ok post.
         new_events w (snd (set_nominal_current T w m ch v)) =
           pre @
           [EvRead 0x6006 r, EvSleep ((case r of Some c \<Rightarrow> uint c | None \<Rightarrow> 100) + 50),
            EvWrite (channel_lock_address m ch) 0 ok] @ post \<and>
         no_writes pre"
    by (intro exI [of _ pre] exI [of _ r] exI [of _ ok] exI [of _ post])
       (simp split: option.splits)
qed

theorem settle_before_first_lock_write_witness:
  "fst (set_nominal_current sim (start [Good, Good, Good, Good, Fail]) 1 1 10) = Inr True \<and>
   (\<exists>pre r ok post.
      new_events (start [Good, Good, Good, Good, Fail])
        (snd (set_nominal_current sim (start [Good, Good, Good, Good, Fail]) 1 1 10)) =
        pre @
        [EvRead 0x6006 r, EvSleep ((case r of Some c \<Rightarrow> uint c | None \<Rightarrow> 100) + 50),
         EvWrite (channel_lock_address 1 1) 0 ok] @ post \<and>
      no_writes pre) \<and>
   take 7 (new_events (start [Good, Good, Good, Good, Fail])
        (snd (set_nominal_current sim (start [Good, Good, Good, Good, Fail]) 1 1 10))) =
     [EvRead 0x2000 (Some 1), EvRead 0x2001 (Some 4), EvRead 0x2000 (Some 1),
      EvReadBlock 0x1010 16 True, EvRead 0x6006 None, EvSleep 150, EvWrite 0xC090 0 True] \<and>
   fst (set_nominal_current sim (start []) 1 5 10) = Inl (InvalidChannelNumber 5 1 4) \<and>
   no_writes (new_events (start []) (snd (set_nominal_current sim (start []) 1 5 10)))"
proof -
  have r: "fst (set_nominal_current sim (start [Good, Good, Good, Good, Fail]) 1 1 10) = Inr True"
    by (simp add: run_defs)
  have t: "take 7 (new_events (start [Good, Good, Good, Good, Fail])
        (snd (set_nominal_current sim (start [Good, Good, Good, Good, Fail]) 1 1 10))) =
     [EvRead 0x2000 (Some 1), EvRead 0x2001 (Some 4), EvRead 0x2000 (Some 1),
      EvReadBlock 0x1010 16 True, EvRead 0x6006 None, EvSleep 150, EvWrite 0xC090 0 True]"
    by (simp add: run_defs)
  have e: "fst (set_nominal_current sim (start []) 1 5 10) = Inl (InvalidChannelNumber 5 1 4)"
    by (simp add: run_defs)
  from settle_before_first_lock_write
         [where T = sim and w = "start [Good, Good, Good, Good, Fail]" and m = 1 and ch = 1
            and v = 10]
       settle_before_first_lock_write
         [where T = sim and w = "start []" and m = 1 and ch = 5 and v = 10]
       r t e
  show ?thesis by (simp only: simp_thms)
qed

section \<open>The dial-only module\<close>

lemma contains_str_iff: "contains_str s needle \<longleftrightarrow> (\<exists>p q. s = p @ needle @ q)"
proof (induction s)
  case Nil
  then show ?case by auto
next
  case (Cons x xs)
  show ?case
  proof
    assume "contains_str (x # xs) needle"
    then consider "take (length needle) (x # xs) = needle" | "contains_str xs needle" by auto
    then show "\<exists>p q. x # xs = p @ needle @ q"
    proof cases
      case 1
      then have "x # xs = [] @ needle @ drop (length needle) (x # xs)"
        by (metis append_Nil append_take_drop_id)
      then show ?thesis by blast
    next
      case 2
      with Cons obtain p q where "xs = p @ needle @ q" by blast
      then have "x # xs = (x # p) @ needle @ q" by simp
      then show ?thesis by blast
    qed
  next
    assume "\<exists>p q. x # xs = p @ needle @ q"
    then obtain p q where pq: "x # xs = p @ needle @ q" by blast
    show "contains_str (x # xs) needle"
    proof (cases p)
      case Nil
      with pq have "take (length needle) (x # xs) = needle" by simp
      then show ?thesis by simp
    next
      case (Cons y p')
      with pq have "xs = p' @ needle @ q" by simp
      with Cons.IH have "contains_str xs needle" by blast
      then show ?thesis by simp
    qed
  qed
qed

text \<open>
  C5. When the module and channel number have passed validation and the product name
  that the device then reports for the module contains \<^verbatim>\<open>CAPAROC E2 12-24DC/2-10A\<close>,
  \<^verbatim>\<open>set_nominal_current\<close> raises the exception for the dial-only module, and nothing
  has been written to the device: up to the exception there are only reads.
\<close>

theorem dial_only_module_refused:
  assumes "validate_module_number T w m = (Inr (), w1)"
    and "validate_channel_number T w1 m ch = (Inr (), w2)"
    and "get_product_name_module T w2 m = (Inr (Some name), w3)"
    and "name = p @ dial_only_product @ q"
  shows "set_nominal_current T w m ch v = (Inl DialOnlyModule, w3) \<and>
         no_writes (new_events w w3)"
proof -
  from assms(4) have c: "contains_str name dial_only_product"
    unfolding contains_str_iff by blast
  from trace_validate_module_number [OF assms(1)] obtain n where
    t1: "trace w1 = trace w @ [EvRead 0x2000 n]" by blast
  from trace_validate_channel_number [OF assms(2)] obtain es2 where
    t2: "trace w2 = trace w1 @ es2" "no_writes es2" by blast
  from trace_get_product_name_module [OF assms(3)] obtain es3 where
    t3: "trace w3 = trace w2 @ es3" "no_writes es3" by blast
  have "trace w3 = trace w @ ([EvRead 0x2000 n] @ es2 @ es3)"
    using t1 t2 t3 by simp
  then have "new_events w w3 = [EvRead 0x2000 n] @ es2 @ es3"
    by (rule new_events_append)
  with t2 t3 have "no_writes (new_events w w3)" by simp
  moreover have "set_nominal_current T w m ch v = (Inl DialOnlyModule, w3)"
    using assms(1-3) c by (simp add: set_nominal_current_def)
  ultimately show ?thesis by simp
qed

theorem dial_only_module_refused_witness:
  "fst (set_nominal_current sim dial_world 1 1 10) = Inl DialOnlyModule \<and>
   no_writes (new_events dial_world (snd (set_nominal_current sim dial_world 1 1 10))) \<and>
   fst (get_product_name_module sim dial_world 1) = Inr (Some ''CAPAROC E2 12-24DC/2-10A'')"
proof -
  define w1 where "w1 = snd (validate_module_number sim dial_world 1)"
  define w2 where "w2 = snd (validate_channel_number sim w1 1 1)"
  define w3 where "w3 = snd (get_product_name_module sim w2 1)"
  have h1: "validate_module_number sim dial_world 1 = (Inr (), w1)"
    unfolding w1_def by (simp add: prod_eq_iff run_defs dial_world_def dial_regs_def)
  have h2: "validate_channel_number sim w1 1 1 = (Inr (), w2)"
    unfolding w2_def w1_def by (simp add: prod_eq_iff run_defs dial_world_def dial_regs_def)
  have h3: "get_product_name_module sim w2 1 = (Inr (Some ''CAPAROC E2 12-24DC/2-10A''), w3)"
    unfolding w3_def w2_def w1_def
    by (simp add: prod_eq_iff run_defs dial_world_def dial_regs_def del: char_of_mod_256)
  have h4: "''CAPAROC E2 12-24DC/2-10A'' = [] @ dial_only_product @ []"
    by (simp add: dial_only_product_def)
  have n: "fst (get_product_name_module sim dial_world 1) = Inr (Some ''CAPAROC E2 12-24DC/2-10A'')"
    by (simp add: run_defs dial_world_def dial_regs_def del: char_of_mod_256)
  from dial_only_module_refused [OF h1 h2 h3 h4, of 10] n
  show ?thesis by simp
qed

section \<open>The exit after a failed global unlock\<close>

text \<open>
  C1. Not every exit path of \<^verbatim>\<open>set_nominal_current\<close> restores the locks. On the device
  below both locks are locked (value 1) and the seventh transport call, the write of 0
  to the global lock register, fails. By then \<^verbatim>\<open>set_nominal_current\<close> has unlocked the
  channel; it returns \<^verbatim>\<open>false\<close> at once, without a write to the lock register of the
  channel, which still holds 0 when the function returns. (The path taken when the
  verification fails does write 1 to both lock registers before it returns.)
\<close>

theorem set_nominal_current_leaves_channel_unlocked:
  "regs0 global_lock_address = 1 \<and> regs0 (channel_lock_address 1 1) = 1 \<and>
   fst (set_nominal_current sim (start [Good, Good, Good, Good, Good, Good, Fail]) 1 1 10)
     = Inr False \<and>
   trace (snd (set_nominal_current sim (start [Good, Good, Good, Good, Good, Good, Fail]) 1 1 10))
     = [EvRead 0x2000 (Some 1), EvRead 0x2001 (Some 4), EvRead 0x2000 (Some 1),
        EvReadBlock 0x1010 16 True, EvRead 0x6006 (Some 0), EvSleep 50,
        EvWrite 0xC090 0 True, EvSleep 50, EvWrite 0xC001 0 False] \<and>
   regs (conn (snd (set_nominal_current sim
                      (start [Good, Good, Good, Good, Good, Good, Fail]) 1 1 10)))
     (channel_lock_address 1 1) = 0"
  by (simp add: run_defs)

section \<open>The write/verify loop\<close>

inductive_cases protocol_trace_TrueE: "protocol_trace m ch v True proto"

text \<open>
  C2. The loop of \<^verbatim>\<open>set_nominal_current\<close>, started at attempt 0, leaves a sequence of
  failed attempts, followed by one verified attempt exactly when it ends with
  \<^verbatim>\<open>verified = true\<close>. A failed attempt is a failed write and a delay, or a successful
  write, a delay, a read-back that failed or differs from the value, and a delay; the
  verified attempt ends the loop with its matching read-back. With the verified attempt
  there are fewer than 5 failed ones before it, and without it there are exactly 5: the
  loop makes at most 5 attempts. \<^verbatim>\<open>set_nominal_current\<close> returns \<^verbatim>\<open>true\<close> only when,
  after the global unlock, fewer than 5 failed attempts were followed by a verified one;
  so 5 attempts without a matching read-back make it report failure.
\<close>

theorem write_verify_loop_attempts:
  "(\<exists>fs. new_events w (snd (write_verify_loop T w a v 0)) =
           concat fs @ (if fst (write_verify_loop T w a v 0) then verified_attempt a v else []) \<and>
         (\<forall>f\<in>set fs. failed_attempt a v f) \<and>
         (if fst (write_verify_loop T w a v 0) then length fs < 5 else length fs = 5)) \<and>
   (fst (set_nominal_current T w m ch v) = Inr True \<longrightarrow>
      (\<exists>pre fs post.
         new_events w (snd (set_nominal_current T w m ch v)) =
           pre @ [EvWrite global_lock_address 0 True, EvSleep 50] @ concat fs @
           verified_attempt (channel_address 0xC050 m ch) v @ post \<and>
         (\<forall>f\<in>set fs. failed_attempt (channel_address 0xC050 m ch) v f) \<and>
         length fs < 5))"
proof (intro conjI impI)
  have "write_verify_loop T w a v 0 =
      (fst (write_verify_loop T w a v 0), snd (write_verify_loop T w a v 0))"
    by simp
  from loop_trace_from_start [OF this] obtain fs where
    fs: "trace (snd (write_verify_loop T w a v 0)) = trace w @ concat fs @
           (if fst (write_verify_loop T w a v 0) then verified_attempt a v else [])"
      "\<forall>f\<in>set fs. failed_attempt a v f"
      "if fst (write_verify_loop T w a v 0) then length fs < 5 else length fs = 5"
    by blast
  from new_events_append [OF fs(1)] fs(2,3)
  show "\<exists>fs. new_events w (snd (write_verify_loop T w a v 0)) =
           concat fs @ (if fst (write_verify_loop T w a v 0) then verified_attempt a v else []) \<and>
         (\<forall>f\<in>set fs. failed_attempt a v f) \<and>
         (if fst (write_verify_loop T w a v 0) then length fs < 5 else length fs = 5)"
    by blast
next
  let ?a = "channel_address 0xC050 m ch" and ?chl = "channel_lock_address m ch"
  assume "fst (set_nominal_current T w m ch v) = Inr True"
  from set_nominal_current_trace [OF this] obtain pre r proto where
    t: "new_events w (snd (set_nominal_current T w m ch v)) =
       pre @ [EvRead 0x6006 r, EvSleep (uint (case r of Some c \<Rightarrow> c | None \<Rightarrow> 100) + 50)] @ proto"
      "protocol_trace m ch v True proto"
    by blast
  from t(2) obtain fs where
    p: "proto = [EvWrite ?chl 0 True, EvSleep 50, EvWrite global_lock_address 0 True, EvSleep 50] @
        concat fs @ verified_attempt ?a v @
        [EvWrite global_lock_address 1 True, EvSleep 50, EvWrite ?chl 1 True, EvSleep 100]"
      "length fs < 5" "\<forall>f\<in>set fs. failed_attempt ?a v f"
    by (rule protocol_trace_TrueE) simp
  show "\<exists>pre fs post.
         new_events w (snd (set_nominal_current T w m ch v)) =
           pre @ [EvWrite global_lock_address 0 True, EvSleep 50] @ concat fs @
           verified_attempt ?a v @ post \<and>
         (\<forall>f\<in>set fs. failed_attempt ?a v f) \<and> length fs < 5"
    using t(1) p
    by (intro exI [of _ "pre @ [EvRead 0x6006 r,
              EvSleep (uint (case r of Some c \<Rightarrow> c | None \<Rightarrow> 100) + 50),
              EvWrite ?chl 0 True, EvSleep 50]"]
          exI [of _ fs]
          exI [of _ "[EvWrite global_lock_address 1 True, EvSleep 50, EvWrite ?chl 1 True,
                      EvSleep 100]"])
       simp
qed

theorem write_verify_loop_attempts_witness:
  "fst (set_nominal_current sim
          (start [Good, Good, Good, Good, Good, Good, Good, Stale, Good, Stale, Good]) 1 1 10)
     = Inr True \<and>
   (\<exists>pre fs post.
      new_events (start [Good, Good, Good, Good, Good, Good, Good, Stale, Good, Stale, Good])
        (snd (set_nominal_current sim
               (start [Good, Good, Good, Good, Good, Good, Good, Stale, Good, Stale, Good])
               1 1 10)) =
        pre @ [EvWrite global_lock_address 0 True, EvSleep 50] @ concat fs @
        verified_attempt (channel_address 0xC050 1 1) 10 @ post \<and>
      (\<forall>f\<in>set fs. failed_attempt (channel_address 0xC050 1 1) 10 f) \<and>
      length fs < 5) \<and>
   new_events (start [Good, Good, Good, Good, Good, Good, Good, Stale, Good, Stale, Good])
        (snd (set_nominal_current sim
               (start [Good, Good, Good, Good, Good, Good, Good, Stale, Good, Stale, Good])
               1 1 10)) =
     [EvRead 0x2000 (Some 1), EvRead 0x2001 (Some 4), EvRead 0x2000 (Some 1),
      EvReadBlock 0x1010 16 True, EvRead 0x6006 (Some 0), EvSleep 50,
      EvWrite 0xC090 0 True, EvSleep 50, EvWrite 0xC001 0 True, EvSleep 50,
      EvWrite 0xC050 10 True, EvSleep 50, EvRead 0xC050 (Some 0), EvSleep 50,
      EvWrite 0xC050 10 True, EvSleep 50, EvRead 0xC050 (Some 0), EvSleep 50,
      EvWrite 0xC050 10 True, EvSleep 50, EvRead 0xC050 (Some 10),
      EvWrite 0xC001 1 True, EvSleep 50, EvWrite 0xC090 1 True, EvSleep 100]"
proof -
  let ?w = "start [Good, Good, Good, Good, Good, Good, Good, Stale, Good, Stale, Good]"
  have r: "fst (set_nominal_current sim ?w 1 1 10) = Inr True"
    by (simp add: run_defs)
  have t: "new_events ?w (snd (set_nominal_current sim ?w 1 1 10)) =
     [EvRead 0x2000 (Some 1), EvRead 0x2001 (Some 4), EvRead 0x2000 (Some 1),
      EvReadBlock 0x1010 16 True, EvRead 0x6006 (Some 0), EvSleep 50,
      EvWrite 0xC090 0 True, EvSleep 50, EvWrite 0xC001 0 True, EvSleep 50,
      EvWrite 0xC050 10 True, EvSleep 50, EvRead 0xC050 (Some 0), EvSleep 50,
      EvWrite 0xC050 10 True, EvSleep 50, EvRead 0xC050 (Some 0), EvSleep 50,
      EvWrite 0xC050 10 True, EvSleep 50, EvRead 0xC050 (Some 10),
      EvWrite 0xC001 1 True, EvSleep 50, EvWrite 0xC090 1 True, EvSleep 100]"
    by (simp add: run_defs)
  from write_verify_loop_attempts
         [where T = sim and w = ?w and m = 1 and ch = 1 and v = 10, THEN conjunct2] r
  have "\<exists>pre fs post.
      new_events ?w (snd (set_nominal_current sim ?w 1 1 10)) =
        pre @ [EvWrite global_lock_address 0 True, EvSleep 50] @ concat fs @
        verified_attempt (channel_address 0xC050 1 1) 10 @ post \<and>
      (\<forall>f\<in>set fs. failed_attempt (channel_address 0xC050 1 1) 10 f) \<and>
      length fs < 5"
    by (rule mp)
  with r t show ?thesis by (simp only: simp_thms)
qed

section \<open>Re-locking and the reported result\<close>

lemma relock_writes_simps [simp]:
  "relock_writes a [] = []"
  "relock_writes a (es @ es') = relock_writes a es @ relock_writes a es'"
  "relock_writes a (EvWrite a' x ok # es) =
     (if a' = a \<and> x = 1 then EvWrite a' x ok # relock_writes a es else relock_writes a es)"
  "relock_writes a (EvRead a' r # es) = relock_writes a es"
  "relock_writes a (EvReadBlock a' n ok # es) = relock_writes a es"
  "relock_writes a (EvSleep ms # es) = relock_writes a es"
  by (auto simp: relock_writes_def)










section \<open>Validation against the live topology\<close>

lemma channel_count_address:
  "(word_of_int (0x2001 + (uint (m::u8) - 1)) :: u16) = 0x2001 + (ucast m - 1)"
  by simp

lemma trace_get_number_of_channels_for_module:
  assumes "get_number_of_channels_for_module T w m = (r, w')"
  shows "(r = None \<and> w' = w) \<or> trace w' = trace w @ [EvRead (0x2001 + (ucast m - 1)) r]"
  using assms
  by (auto simp: get_number_of_channels_for_module_def channel_count_address
      split: if_splits dest: trace_read_uint16)

lemma validation_policyI:
  fixes body :: "'c world \<Rightarrow> (error + 'a) \<times> 'c world"
  assumes H: "res =
     (case validate_module_number T w m of
        (Inl e, w1) \<Rightarrow> (Inl e, w1)
      | (Inr u, w1) \<Rightarrow>
          (case validate_channel_number T w1 m ch of
             (Inl e, w2) \<Rightarrow> (Inl e, w2)
           | (Inr u', w2) \<Rightarrow> body w2))"
    and B: "\<And>w2. \<exists>es. trace (snd (body w2)) = trace w2 @ es \<and>
        (\<forall>e. fst (body w2) = Inl e \<longrightarrow>
           no_writes es \<and> (\<forall>ch' m' k. e \<noteq> InvalidChannelNumber ch' m' k) \<and>
           (\<forall>m' n. e = InvalidModuleNumber m' n \<longrightarrow>
              m' = m \<and> (uint m < 1 \<or> uint n < uint m) \<and> EvRead 0x2000 (Some n) \<in> set es))"
  shows "validation_policy T w m ch res"
proof -
  obtain nm w1 where g: "get_number_of_connected_modules T w = (nm, w1)"
    by (cases "get_number_of_connected_modules T w")
  then have t1: "trace w1 = trace w @ [EvRead 0x2000 nm]"
    by (auto simp: get_number_of_connected_modules_def dest: trace_read_uint16)
  show ?thesis
  proof (cases nm)
    case None
    with g H have "res = (Inl ModuleCountReadFailed, w1)"
      by (simp add: validate_module_number_def)
    with g None t1 show ?thesis
      by (simp add: validation_policy_def)
  next
    case (Some n)
    show ?thesis
    proof (cases "uint m < 1 \<or> uint n < uint m")
      case True
      with g H Some have "res = (Inl (InvalidModuleNumber m n), w1)"
        by (auto simp: validate_module_number_def)
      with g Some t1 True show ?thesis
        by (simp add: validation_policy_def)
    next
      case False
      with g Some have v1: "validate_module_number T w m = (Inr (), w1)"
        by (auto simp: validate_module_number_def)
      obtain nc w2 where c: "get_number_of_channels_for_module T w1 m = (nc, w2)"
        by (cases "get_number_of_channels_for_module T w1 m")
      from trace_get_number_of_channels_for_module [OF c]
      have t2: "(nc = None \<and> w2 = w1) \<or>
                 trace w2 = trace w1 @ [EvRead (0x2001 + (ucast m - 1)) nc]" .
      show ?thesis
      proof (cases nc)
        case None
        with c H v1 have "res = (Inl (ChannelCountReadFailed m), w2)"
          by (simp add: validate_channel_number_def)
        with g Some False c None t1 t2 show ?thesis
          by (auto simp: validation_policy_def)
      next
        case k: (Some k)
        with t2 have t2': "trace w2 = trace w1 @ [EvRead (0x2001 + (ucast m - 1)) (Some k)]"
          by simp
        show ?thesis
        proof (cases "uint ch < 1 \<or> uint k < uint ch")
          case True
          with c H v1 k have "res = (Inl (InvalidChannelNumber ch m k), w2)"
            by (auto simp: validate_channel_number_def)
          with g Some False c k t1 t2' True show ?thesis
            by (simp add: validation_policy_def)
        next
          case inr: False
          with c H v1 k have r: "res = body w2"
            by (auto simp: validate_channel_number_def)
          from B [of w2] obtain es where
            es: "trace (snd (body w2)) = trace w2 @ es"
              "\<forall>e. fst (body w2) = Inl e \<longrightarrow>
                 no_writes es \<and> (\<forall>ch' m' k. e \<noteq> InvalidChannelNumber ch' m' k) \<and>
                 (\<forall>m' n. e = InvalidModuleNumber m' n \<longrightarrow>
                    m' = m \<and> (uint m < 1 \<or> uint n < uint m) \<and>
                    EvRead 0x2000 (Some n) \<in> set es)"
            by blast
          have n: "new_events w (snd res) =
              EvRead 0x2000 (Some n) # EvRead (0x2001 + (ucast m - 1)) (Some k) # es"
            using r es(1) t1 t2' Some by (simp add: new_events_def)
          show ?thesis
            unfolding validation_policy_def n
            using g Some False c k inr es(2) r
            by auto
        qed
      qed
    qed
  qed
qed

lemma get_product_name_module_Inl:
  assumes "get_product_name_module T w m = (Inl e, w')"
  shows "\<exists>nm. trace w' = trace w @ [EvRead 0x2000 nm] \<and>
     (e = ModuleCountReadFailed \<or>
      (\<exists>n. nm = Some n \<and> e = InvalidModuleNumber m n \<and> (uint m < 1 \<or> uint n < uint m)))"
  using assms
  by (auto simp: get_product_name_module_def validate_module_number_def
        get_number_of_connected_modules_def
      split: prod.splits sum.splits option.splits if_splits dest!: trace_read_uint16)

lemma set_nominal_current_body:
  "\<exists>es. trace (snd 
     (case get_product_name_module T w2 m of
          (Inl e, w3) \<Rightarrow> (Inl e, w3)
        | (Inr product_name_opt, w3) \<Rightarrow>
            if product_name_opt \<noteq> None \<and> contains_str (the product_name_opt) dial_only_product
            then (Inl DialOnlyModule, w3)
            else (case set_nominal_current_handshake T w3 m ch v of
                    (ok, w') \<Rightarrow> (Inr ok, w')))) = trace w2 @ es \<and>
        (\<forall>e. fst 
     (case get_product_name_module T w2 m of
          (Inl e, w3) \<Rightarrow> (Inl e, w3)
        | (Inr product_name_opt, w3) \<Rightarrow>
            if product_name_opt \<noteq> None \<and> contains_str (the product_name_opt) dial_only_product
            then (Inl DialOnlyModule, w3)
            else (case set_nominal_current_handshake T w3 m ch v of
                    (ok, w') \<Rightarrow> (Inr ok, w'))) = Inl e \<longrightarrow>
           no_writes es \<and> (\<forall>ch' m' k. e \<noteq> InvalidChannelNumber ch' m' k) \<and>
           (\<forall>m' n. e = InvalidModuleNumber m' n \<longrightarrow>
              m' = m \<and> (uint m < 1 \<or> uint n < uint m) \<and> EvRead 0x2000 (Some n) \<in> set es))"
proof -
  let ?body = "
     (case get_product_name_module T w2 m of
          (Inl e, w3) \<Rightarrow> (Inl e, w3)
        | (Inr product_name_opt, w3) \<Rightarrow>
            if product_name_opt \<noteq> None \<and> contains_str (the product_name_opt) dial_only_product
            then (Inl DialOnlyModule, w3)
            else (case set_nominal_current_handshake T w3 m ch v of
                    (ok, w') \<Rightarrow> (Inr ok, w')))"
  obtain r w3 where p: "get_product_name_module T w2 m = (r, w3)"
    by (cases "get_product_name_module T w2 m")
  from trace_get_product_name_module [OF p] obtain es3 where
    t3: "trace w3 = trace w2 @ es3" "no_writes es3" by blast
  show ?thesis
  proof (cases r)
    case (Inl e)
    with p have b: "?body = (Inl e, w3)" by simp
    from get_product_name_module_Inl [OF p [unfolded Inl]] obtain nm where
      "trace w3 = trace w2 @ [EvRead 0x2000 nm]"
      "e = ModuleCountReadFailed \<or>
       (\<exists>n. nm = Some n \<and> e = InvalidModuleNumber m n \<and> (uint m < 1 \<or> uint n < uint m))"
      by blast
    with b show ?thesis
      by (intro exI [of _ "[EvRead 0x2000 nm]"]) auto
  next
    case (Inr pn)
    show ?thesis
    proof (cases "pn \<noteq> None \<and> contains_str (the pn) dial_only_product")
      case True
      with p Inr have "?body = (Inl DialOnlyModule, w3)" by simp
      with t3 show ?thesis by (intro exI [of _ es3]) simp
    next
      case False
      obtain ok w' where h: "set_nominal_current_handshake T w3 m ch v = (ok, w')"
        by (cases "set_nominal_current_handshake T w3 m ch v")
      with p Inr False have b: "?body = (Inr ok, w')" by auto
      from handshake_trace [OF h] obtain es4 where "trace w' = trace w3 @ es4" by blast
      with b t3 show ?thesis by (intro exI [of _ "es3 @ es4"]) simp
    qed
  qed
qed

text \<open>
  C4. Each of \<^verbatim>\<open>set_nominal_current\<close>, \<^verbatim>\<open>get_nominal_current\<close>, \<^verbatim>\<open>get_channel_status\<close>,
  \<^verbatim>\<open>get_load_current\<close> and \<^verbatim>\<open>control_channel\<close> follows the validation policy on every
  call: it first reads the module count from the device; when that count \<open>n\<close> is read
  and the module is outside \<open>1..n\<close> it raises the exception carrying the module number
  and \<open>n\<close>; otherwise it reads the channel count of the module, and when that count
  \<open>k\<close> is read and the channel is outside \<open>1..k\<close> it raises the exception carrying the
  channel number, the module number and \<open>k\<close>; these two exceptions are raised in no other
  situation, and no exception is preceded by a write to the device.
\<close>

theorem validation_on_every_call:
  "validation_policy T w m ch (set_nominal_current T w m ch v) \<and>
   validation_policy T w m ch (get_nominal_current T w m ch) \<and>
   validation_policy T w m ch (get_channel_status T w m ch) \<and>
   validation_policy T w m ch (get_load_current T w m ch) \<and>
   validation_policy T w m ch (control_channel T w m ch on)"
proof (intro conjI)
  show "validation_policy T w m ch (set_nominal_current T w m ch v)"
    by (rule validation_policyI [OF _ set_nominal_current_body])
       (simp add: set_nominal_current_def)
  show "validation_policy T w m ch (get_nominal_current T w m ch)"
    by (rule validation_policyI [where body = "\<lambda>w2.
          case read_uint16 T w2 (channel_address 0xC050 m ch) of (r, w3) \<Rightarrow> (Inr r, w3)"])
       (auto simp: get_nominal_current_def split: prod.splits dest: trace_read_uint16)
  show "validation_policy T w m ch (get_channel_status T w m ch)"
    by (rule validation_policyI [where body = "\<lambda>w2.
          case read_uint16 T w2 (channel_address 0x6010 m ch) of
            (None, w3) \<Rightarrow> (Inr None, w3)
          | (Some val, w3) \<Rightarrow> (Inr (Some (decode_channel_status val)), w3)"])
       (auto simp: get_channel_status_def split: prod.splits option.splits
          dest: trace_read_uint16)
  show "validation_policy T w m ch (get_load_current T w m ch)"
    by (rule validation_policyI [where body = "\<lambda>w2.
          case read_uint16 T w2 (channel_address 0x6050 m ch) of (r, w3) \<Rightarrow> (Inr r, w3)"])
       (auto simp: get_load_current_def split: prod.splits dest: trace_read_uint16)
  show "validation_policy T w m ch (control_channel T w m ch on)"
    by (rule validation_policyI [where body = "\<lambda>w2.
          case write_uint16 T w2 (channel_address 0xC010 m ch) (if on then 1 else 0) of
            (ok, w3) \<Rightarrow> (Inr ok, w3)"])
       (auto simp: control_channel_def split: prod.splits dest: trace_write_uint16)
qed

theorem validation_on_every_call_witness:
  "fst (get_nominal_current sim (start []) 1 5) = Inl (InvalidChannelNumber 5 1 4) \<and>
   trace (snd (get_nominal_current sim (start []) 1 5)) =
     [EvRead 0x2000 (Some 1), EvRead 0x2001 (Some 4)] \<and>
   fst (control_channel sim (start []) 2 1 True) = Inl (InvalidModuleNumber 2 1) \<and>
   trace (snd (control_channel sim (start []) 2 1 True)) = [EvRead 0x2000 (Some 1)]"
proof -
  note p = validation_on_every_call [where T = sim and w = "start []"]
  have a: "validation_policy sim (start []) 1 5 (get_nominal_current sim (start []) 1 5)"
    using p [where m = 1 and ch = 5] by simp
  have b: "validation_policy sim (start []) 2 1 (control_channel sim (start []) 2 1 True)"
    using p [where m = 2 and ch = 1 and on = True] by simp
  have "get_nominal_current sim (start []) 1 5 =
      (Inl (InvalidChannelNumber 5 1 4),
       snd (get_number_of_channels_for_module sim
              (snd (get_number_of_connected_modules sim (start []))) 1))"
    using a unfolding validation_policy_def
    by (simp add: topology_defs access_defs sim_defs split: prod.splits)
  moreover have "control_channel sim (start []) 2 1 True =
      (Inl (InvalidModuleNumber 2 1), snd (get_number_of_connected_modules sim (start [])))"
    using b unfolding validation_policy_def
    by (simp add: topology_defs access_defs sim_defs split: prod.splits)
  ultimately show ?thesis
    by (simp add: topology_defs access_defs sim_defs)
qed

end
